theory Spec2Isabelle
  imports Complex_Main "HOL-Library.AList"
begin

section \<open>Maze generation and persistence (src/maze/main.py)\<close>

text \<open>
  A shallow embedding of \<^verbatim>\<open>src/maze/main.py\<close>. Conventions:
  \<^item> Python numbers of the geometry (coordinates, lengths, heights) are \<open>real\<close>; the grid
    size, the wall-id counter and every index are \<open>int\<close> (Python's unbounded integers).
  \<^item> Exceptions are values of \<open>error\<close>; a function that can raise returns \<open>error + 'a\<close>.
  \<^item> The \<^verbatim>\<open>random\<close> module is a parameter: a record of its three entry points the file calls,
    threading a generator state of an arbitrary type.
  \<^item> The scene context (\<^verbatim>\<open>ry.Config\<close>) is the list of its frames, each name once: a frame
    is added for a new name and reused for a name the scene already has.
  \<^item> Standard output and the files written are fields of an explicit \<open>world\<close>.
  \<^item> A document read from a file is typed as the file format has it; a key may be absent.
  The batch generator and the viewer (\<^verbatim>\<open>generate_and_save_random_mazes\<close>,
  \<^verbatim>\<open>load_maze_and_add_robot\<close>, \<^verbatim>\<open>Robot.create_robot\<close>) only call the functions below and
  the engine, and are not modelled.
\<close>

subsection \<open>Errors\<close>

datatype error =
    KeyError string
  | ValueError
  | IndexError
  | FileNotFoundError string

subsection \<open>Formatting integers (Python's str on int)\<close>

definition digit_char :: "nat \<Rightarrow> char" where
  "digit_char d = ''0123456789'' ! d"

function str_nat :: "nat \<Rightarrow> string" where
  "str_nat n = (if n < 10 then [digit_char n] else str_nat (n div 10) @ [digit_char (n mod 10)])"
  by pat_completeness auto
termination
  by (relation "measure id") auto

declare str_nat.simps [simp del]

definition str_int :: "int \<Rightarrow> string" where
  "str_int i = (if i < 0 then CHR ''-'' # str_nat (nat (- i)) else str_nat (nat i))"

subsection \<open>Geometry: the collision test\<close>

type_synonym footprint = "real \<times> real \<times> real \<times> real"

text \<open>
  \<^verbatim>\<open>check_collision(new_wall, existing_walls)\<close>: the loop over the existing footprints returns
  True at the first one that overlaps the new footprint, False when the list is exhausted.
\<close>

fun check_collision :: "footprint \<Rightarrow> footprint list \<Rightarrow> bool" where
  "check_collision new_wall [] = False"
| "check_collision (x1, y1, x2, y2) ((wx1, wy1, wx2, wy2) # existing_walls) =
     (if x1 < wx2 \<and> x2 > wx1 \<and> y1 < wy2 \<and> y2 > wy1 then True
      else check_collision (x1, y1, x2, y2) existing_walls)"

subsection \<open>The random module and the world\<close>

text \<open>
  The three functions of Python's \<^verbatim>\<open>random\<close> that the file calls, each from the generator's
  state to a result and the next state. Nothing is assumed about the results.
\<close>

record 's random_module =
  randint :: "int \<Rightarrow> int \<Rightarrow> 's \<Rightarrow> int \<times> 's"
  uniform :: "real \<Rightarrow> real \<Rightarrow> 's \<Rightarrow> real \<times> 's"
  choice :: "string list \<Rightarrow> 's \<Rightarrow> string \<times> 's"

subsection \<open>Shapes, obstacles and the scene\<close>

text \<open>
  \<^verbatim>\<open>ry.ST\<close> is the engine's enumeration of shape primitives; the file names one member,
  \<^verbatim>\<open>ry.ST.ssBox\<close>. Any other member is kept by its name. Python prints a member as
  \<^verbatim>\<open>ST.<member>\<close>.
\<close>

datatype ST = ssBox | other_ST string

fun str_ST :: "ST \<Rightarrow> string" where
  "str_ST ssBox = ''ST.ssBox''"
| "str_ST (other_ST member) = ''ST.'' @ member"

text \<open>\<^verbatim>\<open>s.split('.')[-1]\<close>: what follows the last dot of \<open>s\<close> (all of \<open>s\<close> when it has none).\<close>

definition split_last :: "string \<Rightarrow> string" where
  "split_last s = rev (takeWhile (\<lambda>c. c \<noteq> CHR ''.'') (rev s))"

record obstacle =
  name :: string
  shape_type :: ST
  size_o :: "real list"
  color :: "real list"
  position :: "real list"

text \<open>A frame of the scene: what \<^verbatim>\<open>addFrame\<close>, \<^verbatim>\<open>setShape\<close>, \<^verbatim>\<open>setColor\<close> and \<^verbatim>\<open>setPosition\<close> were given.\<close>

record frame =
  frame_name :: string
  frame_shape :: "ST \<times> real list"
  frame_color :: "real list"
  frame_position :: "real list"

text \<open>
  The dictionary of an obstacle, as \<^verbatim>\<open>to_dict\<close> writes it and \<^verbatim>\<open>from_dict\<close> reads it: one
  optional entry per key, \<open>None\<close> for a key that is absent.
\<close>

record obstacle_dict =
  d_name :: "string option"
  d_shape_type :: "string option"
  d_size :: "real list option"
  d_color :: "real list option"
  d_position :: "real list option"

record robot =
  position_r :: "real list"
  model :: string
  quaternion :: "real list"

text \<open>The maze document (\<^verbatim>\<open>maze_data\<close>), again one optional entry per key.\<close>

record maze_data =
  j_size :: "int option"
  j_scale :: "real option"
  j_wall_height :: "real option"
  j_wall_length :: "real option"
  j_maze_size :: "real option"
  j_center_position :: "real list option"
  j_wall_id_counter :: "int option"
  j_obstacles :: "obstacle_dict list option"
  j_custom_walls :: "obstacle_dict list option"
  j_robot_position :: "real list option"
  j_robot_model :: "string option"
  j_robot_quaternion :: "real list option"

record 's world =
  rand_state :: 's
  printed :: "string list"
  files :: "string \<Rightarrow> maze_data option"

definition print :: "string \<Rightarrow> 's world \<Rightarrow> 's world" where
  "print line w = w\<lparr>printed := printed w @ [line]\<rparr>"

definition random_randint :: "'s random_module \<Rightarrow> int \<Rightarrow> int \<Rightarrow> 's world \<Rightarrow> int \<times> 's world" where
  "random_randint R a b w = (let (v, s) = randint R a b (rand_state w) in (v, w\<lparr>rand_state := s\<rparr>))"

definition random_uniform :: "'s random_module \<Rightarrow> real \<Rightarrow> real \<Rightarrow> 's world \<Rightarrow> real \<times> 's world" where
  "random_uniform R a b w = (let (v, s) = uniform R a b (rand_state w) in (v, w\<lparr>rand_state := s\<rparr>))"

definition random_choice :: "'s random_module \<Rightarrow> string list \<Rightarrow> 's world \<Rightarrow> string \<times> 's world" where
  "random_choice R xs w = (let (v, s) = choice R xs (rand_state w) in (v, w\<lparr>rand_state := s\<rparr>))"

text \<open>The frame with the name, shape, colour and position of an obstacle.\<close>

definition frame_of :: "obstacle \<Rightarrow> frame" where
  "frame_of ob = \<lparr>frame_name = name ob, frame_shape = (shape_type ob, size_o ob),
                  frame_color = color ob, frame_position = position ob\<rparr>"

text \<open>
  The engine's \<^verbatim>\<open>addFrame(name)\<close> gives the frame of that name: the frame already in the scene
  when the name is taken, a new frame at the end of the scene otherwise. \<open>put_frame f config\<close>
  is the scene after \<^verbatim>\<open>addFrame\<close> and the setters have given that frame the attributes of \<open>f\<close>.
\<close>

fun put_frame :: "frame \<Rightarrow> frame list \<Rightarrow> frame list" where
  "put_frame f [] = [f]"
| "put_frame f (g # config) =
     (if frame_name g = frame_name f then f # config else g # put_frame f config)"

text \<open>
  \<^verbatim>\<open>Obstacle.create_object\<close>: \<^verbatim>\<open>addFrame(self.name)\<close>, then \<^verbatim>\<open>setShape\<close>, \<^verbatim>\<open>setColor\<close> and
  \<^verbatim>\<open>setPosition\<close> on the frame it returned.
\<close>

definition create_object :: "frame list \<Rightarrow> obstacle \<Rightarrow> frame list" where
  "create_object config self = put_frame (frame_of self) config"

text \<open>
  \<^verbatim>\<open>Obstacle.__init__\<close>: the name given is extended by an underscore and a random integer
  drawn from 1000..9999, then the object is added to the scene.
\<close>

definition Obstacle ::
  "'s random_module \<Rightarrow> frame list \<Rightarrow> string \<Rightarrow> ST \<Rightarrow> real list \<Rightarrow> real list \<Rightarrow> real list \<Rightarrow>
   's world \<Rightarrow> obstacle \<times> frame list \<times> 's world" where
  "Obstacle R config nm shape sz col pos w =
     (let (uid, w') = random_randint R 1000 9999 w;
          unique_id = str_int uid;
          self = \<lparr>name = nm @ ''_'' @ unique_id, shape_type = shape, size_o = sz,
                  color = col, position = pos\<rparr>
      in (self, create_object config self, w'))"

definition shape_type_mapping :: "string \<Rightarrow> ST option" where
  "shape_type_mapping = map_of [(''ssBox'', ssBox)]"

text \<open>
  \<^verbatim>\<open>Obstacle.from_dict\<close>: the shape string is looked up first, then the other four keys are
  read in the order of the constructor's arguments; a missing key raises KeyError.
\<close>

definition from_dict ::
  "'s random_module \<Rightarrow> frame list \<Rightarrow> obstacle_dict \<Rightarrow> 's world \<Rightarrow>
   error + (obstacle \<times> frame list \<times> 's world)" where
  "from_dict R config data w =
     (case d_shape_type data of
        None \<Rightarrow> Inl (KeyError ''shape_type'')
      | Some s \<Rightarrow>
     (case shape_type_mapping s of
        None \<Rightarrow> Inl (KeyError s)
      | Some shape \<Rightarrow>
     (case d_name data of
        None \<Rightarrow> Inl (KeyError ''name'')
      | Some nm \<Rightarrow>
     (case d_size data of
        None \<Rightarrow> Inl (KeyError ''size'')
      | Some sz \<Rightarrow>
     (case d_color data of
        None \<Rightarrow> Inl (KeyError ''color'')
      | Some col \<Rightarrow>
     (case d_position data of
        None \<Rightarrow> Inl (KeyError ''position'')
      | Some pos \<Rightarrow> Inr (Obstacle R config nm shape sz col pos w)))))))"

definition to_dict :: "obstacle \<Rightarrow> obstacle_dict" where
  "to_dict self =
     \<lparr>d_name = Some (name self),
      d_shape_type = Some (split_last (str_ST (shape_type self))),
      d_size = Some (size_o self),
      d_color = Some (color self),
      d_position = Some (position self)\<rparr>"

subsection \<open>The maze\<close>

text \<open>
  \<open>custom_walls\<close> is the dictionary from names to obstacles, in insertion order;
  \<open>goal_object\<close> and \<open>final_object\<close> are attributes that exist only once set.
\<close>

record maze =
  config :: "frame list"
  obstacles :: "obstacle list"
  size_m :: int
  scale :: real
  wall_height :: real
  wall_length :: real
  maze_size :: real
  center_position :: "real list"
  custom_walls :: "(string \<times> obstacle) list"
  wall_id_counter :: int
  goal_object :: "obstacle option"
  final_object :: "obstacle option"

text \<open>\<^verbatim>\<open>range(n)\<close> for an integer \<open>n\<close>: empty when \<open>n \<le> 0\<close>.\<close>

definition py_range :: "int \<Rightarrow> int list" where
  "py_range n = map int [0..<nat n]"

definition create_floor :: "'s random_module \<Rightarrow> maze \<Rightarrow> 's world \<Rightarrow> error + (maze \<times> 's world)" where
  "create_floor R self w =
     (let floor_color = [0.8, 0.8, 0.8];
          floor_thickness = 0.1;
          floor_size = [maze_size self, maze_size self, floor_thickness, 0.1]
      in case center_position self of
           [center_x, center_y] \<Rightarrow>
             (let floor_position = [center_x, center_y, - floor_thickness / 2];
                  (floor, cfg, w') =
                     Obstacle R (config self) ''floor'' ssBox floor_size floor_color floor_position w
              in Inr (self\<lparr>config := cfg, obstacles := obstacles self @ [floor]\<rparr>, w'))
         | _ \<Rightarrow> Inl ValueError)"

definition add_wall ::
  "'s random_module \<Rightarrow> string \<Rightarrow> real list \<Rightarrow> real list \<Rightarrow> real list \<Rightarrow> maze \<Rightarrow> 's world \<Rightarrow>
   maze \<times> 's world" where
  "add_wall R nm pos sz col self w =
     (let (wall, cfg, w') = Obstacle R (config self) nm ssBox sz col pos w
      in (self\<lparr>config := cfg, obstacles := obstacles self @ [wall],
                wall_id_counter := wall_id_counter self + 1\<rparr>, w'))"

text \<open>The bodies of the two loops of \<^verbatim>\<open>create_maze\<close>, for the index \<open>i\<close>.\<close>

definition top_bottom_step ::
  "'s random_module \<Rightarrow> real list \<Rightarrow> real list \<Rightarrow> real \<Rightarrow> real \<Rightarrow> int \<Rightarrow> maze \<times> 's world \<Rightarrow>
   maze \<times> 's world" where
  "top_bottom_step R wall_color cube_size offset_x offset_y i st =
     (let (self, w) = st;
          x = offset_x + of_int i * wall_length self - wall_length self / 2;
          (self1, w1) = add_wall R (''top_wall_'' @ str_int i)
             [x, offset_y - wall_length self / 2, wall_height self / 2] cube_size wall_color self w
      in add_wall R (''bottom_wall_'' @ str_int i)
           [x, offset_y + maze_size self1 + wall_length self1 / 2, wall_height self1 / 2]
           cube_size wall_color self1 w1)"

definition left_right_step ::
  "'s random_module \<Rightarrow> real list \<Rightarrow> real list \<Rightarrow> real \<Rightarrow> real \<Rightarrow> int \<Rightarrow> maze \<times> 's world \<Rightarrow>
   maze \<times> 's world" where
  "left_right_step R wall_color cube_size offset_x offset_y i st =
     (let (self, w) = st;
          y = offset_y + of_int i * wall_length self - wall_length self / 2;
          (self1, w1) = add_wall R (''left_wall_'' @ str_int i)
             [offset_x - wall_length self / 2, y, wall_height self / 2] cube_size wall_color self w
      in add_wall R (''right_wall_'' @ str_int i)
           [offset_x + maze_size self1 + wall_length self1 / 2, y, wall_height self1 / 2]
           cube_size wall_color self1 w1)"

definition create_maze :: "'s random_module \<Rightarrow> maze \<Rightarrow> 's world \<Rightarrow> maze \<times> 's world" where
  "create_maze R self w =
     (let wall_color = [0.35, 0.16, 0.14];
          cube_size = [wall_length self, wall_length self, wall_height self, 0.1];
          offset_x = - maze_size self / 2;
          offset_y = - maze_size self / 2;
          st1 = fold (top_bottom_step R wall_color cube_size offset_x offset_y)
                  (py_range (size_m self + 2)) (self, w)
      in fold (left_right_step R wall_color cube_size offset_x offset_y)
           (py_range (size_m (fst st1) + 2)) st1)"

text \<open>\<^verbatim>\<open>Maze.__init__\<close>; the argument \<^verbatim>\<open>floor_size\<close> is not used by the source.\<close>

definition Maze ::
  "'s random_module \<Rightarrow> frame list \<Rightarrow> int \<Rightarrow> real \<Rightarrow> real \<Rightarrow> real \<Rightarrow> real \<Rightarrow> real list \<Rightarrow> 's world \<Rightarrow>
   error + (maze \<times> 's world)" where
  "Maze R cfg sz sc wh wl floor_size center w =
     (let self = \<lparr>config = cfg, obstacles = [], size_m = sz, scale = sc, wall_height = wh,
                  wall_length = wl, maze_size = of_int sz * wl, center_position = center,
                  custom_walls = [], wall_id_counter = 1, goal_object = None,
                  final_object = None\<rparr>
      in case create_floor R self w of
           Inl e \<Rightarrow> Inl e
         | Inr (self1, w1) \<Rightarrow> Inr (create_maze R self1 w1))"

text \<open>
  The body of either loop of \<^verbatim>\<open>add_custom_wall\<close>: the segment is named from the counter,
  \<^verbatim>\<open>add_wall\<close> increments the counter, and the loop increments it once more.
\<close>

definition custom_wall_step ::
  "'s random_module \<Rightarrow> real list \<Rightarrow> real list \<Rightarrow> (int \<Rightarrow> maze \<Rightarrow> real list) \<Rightarrow> int \<Rightarrow>
   maze \<times> 's world \<Rightarrow> maze \<times> 's world" where
  "custom_wall_step R wall_color cube_size pos i st =
     (let (self, w) = st;
          nm = ''custom_wall_'' @ str_int (wall_id_counter self);
          (self1, w1) = add_wall R nm (pos i self) cube_size wall_color self w
      in (self1\<lparr>wall_id_counter := wall_id_counter self1 + 1\<rparr>, w1))"

definition add_custom_wall ::
  "'s random_module \<Rightarrow> real list \<Rightarrow> string \<Rightarrow> int \<Rightarrow> maze \<Rightarrow> 's world \<Rightarrow> error + (maze \<times> 's world)" where
  "add_custom_wall R start_coords direction len self w =
     (let wall_color = [0.25, 0.25, 0.25];
          cube_size = [wall_length self, wall_length self, wall_height self, 0.1]
      in case start_coords of
           [x, y] \<Rightarrow>
             if direction = ''horizontal'' then
               Inr (fold (custom_wall_step R wall_color cube_size
                      (\<lambda>i self. [x + of_int i * wall_length self, y, wall_height self / 2]))
                    (py_range len) (self, w))
             else if direction = ''vertical'' then
               Inr (fold (custom_wall_step R wall_color cube_size
                      (\<lambda>i self. [x, y + of_int i * wall_length self, wall_height self / 2]))
                    (py_range len) (self, w))
             else Inr (self, w)
         | _ \<Rightarrow> Inl ValueError)"

definition add_goal_object ::
  "'s random_module \<Rightarrow> real list \<Rightarrow> maze \<Rightarrow> 's world \<Rightarrow> error + (maze \<times> 's world)" where
  "add_goal_object R coord self w =
     (case coord of
        c0 # c1 # _ \<Rightarrow>
          (let pos = [c0, c1, 0.2];
               (ob, cfg, w') =
                  Obstacle R (config self) ''goal_object'' ssBox [0.3, 0.3, 0.3, 0.1] [0, 0, 1] pos w
           in Inr (self\<lparr>config := cfg, goal_object := Some ob, obstacles := obstacles self @ [ob]\<rparr>,
                   print ''Goal object added.'' w'))
      | _ \<Rightarrow> Inl IndexError)"

definition add_final_object ::
  "'s random_module \<Rightarrow> real list \<Rightarrow> maze \<Rightarrow> 's world \<Rightarrow> error + (maze \<times> 's world)" where
  "add_final_object R coord self w =
     (case coord of
        c0 # c1 # _ \<Rightarrow>
          (let pos = [c0, c1, 0.3];
               (ob, cfg, w') =
                  Obstacle R (config self) ''final_object'' ssBox [0.4, 0.4, 0.4, 0.1] [1, 1, 0] pos w
           in Inr (self\<lparr>config := cfg, final_object := Some ob, obstacles := obstacles self @ [ob]\<rparr>,
                   print ''Final object added.'' w'))
      | _ \<Rightarrow> Inl IndexError)"

subsection \<open>Persistence\<close>

text \<open>
  \<^verbatim>\<open>save_maze\<close>: the document is built from the maze (\<open>maze_data_of\<close>), extended by the
  robot's three entries when a robot is given, and written to the file. The file holds the
  document itself: \<^verbatim>\<open>json.dump\<close> followed by \<^verbatim>\<open>json.load\<close> is taken to give the
  document back.
\<close>

definition maze_data_of :: "robot option \<Rightarrow> maze \<Rightarrow> maze_data" where
  "maze_data_of rb self =
     (let maze_data =
            \<lparr>j_size = Some (size_m self),
             j_scale = Some (scale self),
             j_wall_height = Some (wall_height self),
             j_wall_length = Some (wall_length self),
             j_maze_size = Some (maze_size self),
             j_center_position = Some (center_position self),
             j_wall_id_counter = Some (wall_id_counter self),
             j_obstacles = Some (map to_dict (obstacles self)),
             j_custom_walls = Some (map (\<lambda>(k, wall). to_dict wall) (custom_walls self)),
             j_robot_position = None, j_robot_model = None, j_robot_quaternion = None\<rparr>
      in case rb of
           None \<Rightarrow> maze_data
         | Some r \<Rightarrow> maze_data\<lparr>j_robot_position := Some (position_r r),
                               j_robot_model := Some (model r),
                               j_robot_quaternion := Some (quaternion r)\<rparr>)"

definition save_maze :: "string \<Rightarrow> robot option \<Rightarrow> maze \<Rightarrow> 's world \<Rightarrow> 's world" where
  "save_maze file_path rb self w =
     print (''Maze saved to '' @ file_path)
       (w\<lparr>files := (files w)(file_path \<mapsto> maze_data_of rb self)\<rparr>)"

text \<open>The loop of \<^verbatim>\<open>load_maze\<close> over the obstacle records; the first record that fails ends it.\<close>

fun load_obstacles ::
  "'s random_module \<Rightarrow> obstacle_dict list \<Rightarrow> maze \<Rightarrow> 's world \<Rightarrow> error + (maze \<times> 's world)" where
  "load_obstacles R [] self w = Inr (self, w)"
| "load_obstacles R (obs_data # rest) self w =
     (case from_dict R (config self) obs_data w of
        Inl e \<Rightarrow> Inl e
      | Inr (ob, cfg, w') \<Rightarrow>
          load_obstacles R rest (self\<lparr>config := cfg, obstacles := obstacles self @ [ob]\<rparr>) w')"

text \<open>The loop over the custom-wall records: \<^verbatim>\<open>self.custom_walls[wall.name] = wall\<close>.\<close>

fun load_custom_walls ::
  "'s random_module \<Rightarrow> obstacle_dict list \<Rightarrow> maze \<Rightarrow> 's world \<Rightarrow> error + (maze \<times> 's world)" where
  "load_custom_walls R [] self w = Inr (self, w)"
| "load_custom_walls R (wall_data # rest) self w =
     (case from_dict R (config self) wall_data w of
        Inl e \<Rightarrow> Inl e
      | Inr (wall, cfg, w') \<Rightarrow>
          load_custom_walls R rest
            (self\<lparr>config := cfg,
                   custom_walls := AList.update (name wall) wall (custom_walls self)\<rparr>) w')"

text \<open>
  \<^verbatim>\<open>load_maze\<close>: the seven scalar keys are read in the source's order (a missing one raises
  KeyError), the scene is cleared, the obstacle list is rebuilt from the key
  \<^verbatim>\<open>obstacles\<close>, and the custom-wall dictionary from the key \<^verbatim>\<open>custom_walls\<close> when the
  document has it. A call that raises leaves no result in the model.
\<close>

definition load_maze ::
  "'s random_module \<Rightarrow> string \<Rightarrow> maze \<Rightarrow> 's world \<Rightarrow> error + (maze \<times> 's world)" where
  "load_maze R file_path self w =
     (case files w file_path of
        None \<Rightarrow> Inl (FileNotFoundError file_path)
      | Some maze_data \<Rightarrow>
     (case j_size maze_data of None \<Rightarrow> Inl (KeyError ''size'') | Some v_size \<Rightarrow>
     (case j_scale maze_data of None \<Rightarrow> Inl (KeyError ''scale'') | Some v_scale \<Rightarrow>
     (case j_wall_height maze_data of None \<Rightarrow> Inl (KeyError ''wall_height'') | Some v_wall_height \<Rightarrow>
     (case j_wall_length maze_data of None \<Rightarrow> Inl (KeyError ''wall_length'') | Some v_wall_length \<Rightarrow>
     (case j_maze_size maze_data of None \<Rightarrow> Inl (KeyError ''maze_size'') | Some v_maze_size \<Rightarrow>
     (case j_center_position maze_data of
        None \<Rightarrow> Inl (KeyError ''center_position'') | Some v_center_position \<Rightarrow>
     (case j_wall_id_counter maze_data of
        None \<Rightarrow> Inl (KeyError ''wall_id_counter'') | Some v_wall_id_counter \<Rightarrow>
     (let self1 = self\<lparr>size_m := v_size, scale := v_scale, wall_height := v_wall_height,
                       wall_length := v_wall_length, maze_size := v_maze_size,
                       center_position := v_center_position,
                       wall_id_counter := v_wall_id_counter, config := [], obstacles := []\<rparr>
      in case j_obstacles maze_data of
           None \<Rightarrow> Inl (KeyError ''obstacles'')
         | Some obstacle_records \<Rightarrow>
        (case load_obstacles R obstacle_records self1 w of
           Inl e \<Rightarrow> Inl e
         | Inr (self2, w2) \<Rightarrow>
        (case (case j_custom_walls maze_data of
                 None \<Rightarrow> Inr (self2\<lparr>custom_walls := []\<rparr>, w2)
               | Some wall_records \<Rightarrow>
                   load_custom_walls R wall_records (self2\<lparr>custom_walls := []\<rparr>) w2) of
           Inl e \<Rightarrow> Inl e
         | Inr (self3, w3) \<Rightarrow>
             Inr (self3, print (''Maze loaded from '' @ file_path) w3))))))))))))"

subsection \<open>Random wall placement\<close>

definition max_attempts :: nat where
  "max_attempts = 100"

text \<open>The footprint of a proposed wall (the assignment to \<^verbatim>\<open>wall_boundary\<close>).\<close>

definition wall_boundary :: "maze \<Rightarrow> real \<Rightarrow> real \<Rightarrow> string \<Rightarrow> int \<Rightarrow> footprint" where
  "wall_boundary maze x y direction len =
     (if direction = ''horizontal'' then
        (x, y, x + of_int len * wall_length maze, y + wall_height maze)
      else
        (x, y, x + wall_length maze, y + of_int len * wall_length maze))"

text \<open>The four draws of one attempt, in the source's order: x, y, direction, length.\<close>

definition draw_candidate ::
  "'s random_module \<Rightarrow> maze \<Rightarrow> 's world \<Rightarrow> (real \<times> real \<times> string \<times> int) \<times> 's world" where
  "draw_candidate R maze w =
     (let (x, w1) = random_uniform R (- maze_size maze / 2 + wall_length maze)
                      (maze_size maze / 2 - wall_length maze) w;
          (y, w2) = random_uniform R (- maze_size maze / 2 + wall_length maze)
                      (maze_size maze / 2 - wall_length maze) w1;
          (direction, w3) = random_choice R [''horizontal'', ''vertical''] w2;
          (len, w4) = random_randint R 1 3 w3
      in ((x, y, direction, len), w4))"

text \<open>
  The \<^verbatim>\<open>while attempts < max_attempts\<close> loop for one wall, from a given value of
  \<^verbatim>\<open>attempts\<close>. It returns the maze, the list \<^verbatim>\<open>existing_walls\<close>, the world and the value of
  \<^verbatim>\<open>attempts\<close> at the loop's exit.
\<close>

function place_wall ::
  "'s random_module \<Rightarrow> maze \<Rightarrow> footprint list \<Rightarrow> 's world \<Rightarrow> nat \<Rightarrow>
   error + (maze \<times> footprint list \<times> 's world \<times> nat)" where
  "place_wall R maze existing_walls w attempts =
     (if attempts < max_attempts then
        (let cand = fst (draw_candidate R maze w);
             w1 = snd (draw_candidate R maze w);
             x = fst cand; y = fst (snd cand);
             direction = fst (snd (snd cand)); len = snd (snd (snd cand));
             b = wall_boundary maze x y direction len
         in if \<not> check_collision b existing_walls then
              (case add_custom_wall R [x, y] direction len maze w1 of
                 Inl e \<Rightarrow> Inl e
               | Inr (maze', w2) \<Rightarrow> Inr (maze', existing_walls @ [b], w2, attempts))
            else place_wall R maze existing_walls w1 (attempts + 1))
      else Inr (maze, existing_walls, w, attempts))"
  by pat_completeness auto
termination
  by (relation "measure (\<lambda>(R, maze, existing_walls, w, attempts). max_attempts - attempts)") auto

declare place_wall.simps [simp del]

text \<open>
  The \<^verbatim>\<open>for _ in range(num_walls)\<close> loop: each wall starts with \<^verbatim>\<open>attempts = 0\<close>, and the
  failure line is printed when the inner loop ended with \<^verbatim>\<open>attempts == max_attempts\<close>.
\<close>

fun walls_loop ::
  "'s random_module \<Rightarrow> int list \<Rightarrow> maze \<times> footprint list \<times> 's world \<Rightarrow>
   error + (maze \<times> footprint list \<times> 's world)" where
  "walls_loop R [] st = Inr st"
| "walls_loop R (i # rest) (maze, existing_walls, w) =
     (case place_wall R maze existing_walls w 0 of
        Inl e \<Rightarrow> Inl e
      | Inr (maze', existing_walls', w', attempts) \<Rightarrow>
          walls_loop R rest
            (maze', existing_walls',
             if attempts = max_attempts then
               print (''Failed to place wall after '' @ str_nat max_attempts @ '' attempts.'') w'
             else w'))"

text \<open>
  \<^verbatim>\<open>generate_random_walls\<close>. Python returns nothing; the model returns the maze as mutated,
  the final value of the local list \<^verbatim>\<open>existing_walls\<close> and the world.
\<close>

definition generate_random_walls ::
  "'s random_module \<Rightarrow> maze \<Rightarrow> int \<Rightarrow> 's world \<Rightarrow> error + (maze \<times> footprint list \<times> 's world)" where
  "generate_random_walls R maze num_walls w =
     (case walls_loop R (py_range num_walls) (maze, [], w) of
        Inl e \<Rightarrow> Inl e
      | Inr (maze', existing_walls, w') \<Rightarrow>
          Inr (maze', existing_walls,
               print (str_int num_walls @ '' random walls added without collisions.'') w'))"

subsection \<open>Inputs for the examples\<close>

text \<open>
  Two generators: one that always returns the lower bound (and the first element), and one
  whose results follow a counter. A world with nothing printed and no file, and the maze
  record as \<^verbatim>\<open>Maze.__init__\<close> has it before the floor is created.
\<close>

definition gen_const :: "unit random_module" where
  "gen_const = \<lparr>randint = (\<lambda>a b s. (a, s)), uniform = (\<lambda>a b s. (a, s)),
                 choice = (\<lambda>xs s. (hd xs, s))\<rparr>"

definition gen_count :: "nat random_module" where
  "gen_count = \<lparr>randint = (\<lambda>a b s. (a + int s, s)), uniform = (\<lambda>a b s. (real s, Suc s)),
                 choice = (\<lambda>xs s. (xs ! (s mod 2), s))\<rparr>"

definition world0 :: "'s \<Rightarrow> 's world" where
  "world0 s = \<lparr>rand_state = s, printed = [], files = Map.empty\<rparr>"

definition maze0 :: maze where
  "maze0 = \<lparr>config = [], obstacles = [], size_m = 4, scale = 1 / 3, wall_height = 1,
             wall_length = 1, maze_size = 4, center_position = [0, 0], custom_walls = [],
             wall_id_counter = 1, goal_object = None, final_object = None\<rparr>"

section \<open>Properties\<close>

subsection \<open>Notions used to state the properties\<close>

text \<open>
  What a sequence of wall additions does to a maze: new obstacles at the end of the list,
  their frames put into the scene one after the other, the counter advanced by \<open>k\<close>, every
  other field as before.
\<close>

definition extended :: "maze \<Rightarrow> obstacle list \<Rightarrow> int \<Rightarrow> maze" where
  "extended self news k =
     self\<lparr>config := foldl create_object (config self) news, obstacles := obstacles self @ news,
          wall_id_counter := wall_id_counter self + k\<rparr>"

text \<open>The obstacle that \<open>add_wall\<close> creates when the generator returns \<open>uid\<close>.\<close>

definition wall_named :: "string \<Rightarrow> int \<Rightarrow> real list \<Rightarrow> real list \<Rightarrow> real list \<Rightarrow> obstacle" where
  "wall_named nm uid pos sz col =
     \<lparr>name = nm @ ''_'' @ str_int uid, shape_type = ssBox, size_o = sz, color = col,
      position = pos\<rparr>"

text \<open>An obstacle whose name begins with \<open>p\<close>, and how many obstacles of a list do.\<close>

definition starts :: "string \<Rightarrow> obstacle \<Rightarrow> bool" where
  "starts p ob \<longleftrightarrow> take (length p) (name ob) = p"

definition count_side :: "string \<Rightarrow> obstacle list \<Rightarrow> nat" where
  "count_side p obs = length (filter (starts p) obs)"

text \<open>A record from which \<open>from_dict\<close> can rebuild an obstacle.\<close>

definition record_ok :: "obstacle_dict \<Rightarrow> bool" where
  "record_ok data \<longleftrightarrow>
     d_shape_type data = Some ''ssBox'' \<and> d_name data \<noteq> None \<and> d_size data \<noteq> None
     \<and> d_color data \<noteq> None \<and> d_position data \<noteq> None"

subsection \<open>Obstacles and single walls\<close>

lemma Obstacle_eq:
  "Obstacle R cfg nm sh sz col pos w =
     (let uid = fst (randint R 1000 9999 (rand_state w));
          ob = \<lparr>name = nm @ ''_'' @ str_int uid, shape_type = sh, size_o = sz,
                color = col, position = pos\<rparr>
      in (ob, create_object cfg ob,
          w\<lparr>rand_state := snd (randint R 1000 9999 (rand_state w))\<rparr>))"
  by (simp add: Obstacle_def random_randint_def Let_def split_beta)

lemma Obstacle_frame:
  "fst (snd (Obstacle R cfg nm sh sz col pos w))
     = create_object cfg (fst (Obstacle R cfg nm sh sz col pos w))"
  by (simp add: Obstacle_eq Let_def)

lemma Obstacle_world:
  "printed (snd (snd (Obstacle R cfg nm sh sz col pos w))) = printed w"
  "files (snd (snd (Obstacle R cfg nm sh sz col pos w))) = files w"
  by (simp_all add: Obstacle_eq Let_def)

lemma extended_extended:
  "extended (extended self xs j) ys k = extended self (xs @ ys) (j + k)"
  by (simp add: extended_def)

lemma extended_fields [simp]:
  "obstacles (extended self news k) = obstacles self @ news"
  "config (extended self news k) = foldl create_object (config self) news"
  "wall_id_counter (extended self news k) = wall_id_counter self + k"
  "size_m (extended self news k) = size_m self"
  "scale (extended self news k) = scale self"
  "wall_height (extended self news k) = wall_height self"
  "wall_length (extended self news k) = wall_length self"
  "maze_size (extended self news k) = maze_size self"
  "center_position (extended self news k) = center_position self"
  "custom_walls (extended self news k) = custom_walls self"
  "goal_object (extended self news k) = goal_object self"
  "final_object (extended self news k) = final_object self"
  by (simp_all add: extended_def)

lemma add_wall_eq:
  "add_wall R nm pos sz col self w =
     (extended self [wall_named nm (fst (randint R 1000 9999 (rand_state w))) pos sz col] 1,
      w\<lparr>rand_state := snd (randint R 1000 9999 (rand_state w))\<rparr>)"
  by (simp add: add_wall_def Obstacle_eq Let_def extended_def wall_named_def)

lemma add_wall_extended:
  "\<exists>uid w'. add_wall R nm pos sz col self w = (extended self [wall_named nm uid pos sz col] 1, w')"
  using add_wall_eq by blast

lemma add_custom_wall_pair:
  "\<exists>maze' w'. add_custom_wall R [x, y] direction len maze w = Inr (maze', w')"
  by (simp add: add_custom_wall_def Let_def)

lemma length_py_range [simp]: "length (py_range n) = nat n"
  by (simp add: py_range_def)

subsection \<open>Formatting on numerals\<close>

lemma str_nat_numeral [simp]:
  "str_nat (numeral k) =
     (if (numeral k :: nat) < 10 then [digit_char (numeral k)]
      else str_nat (numeral k div 10) @ [digit_char (numeral k mod 10)])"
  by (rule str_nat.simps)

lemma str_nat_0 [simp]: "str_nat 0 = ''0''"
  by (simp add: str_nat.simps [of 0] digit_char_def)

lemma str_nat_1 [simp]: "str_nat (Suc 0) = ''1''"
  by (simp add: str_nat.simps [of "Suc 0"] digit_char_def)

lemmas eval_defs = generate_random_walls_def py_range_def gen_const_def gen_count_def maze0_def
  world0_def draw_candidate_def random_uniform_def random_choice_def random_randint_def
  wall_boundary_def add_custom_wall_def custom_wall_step_def add_wall_def Obstacle_def
  create_object_def frame_of_def print_def max_attempts_def Let_def str_int_def digit_char_def
  split_beta


subsection \<open>The collision test (C3)\<close>

text \<open>
  C3. For two rectangles given as (minX, minY, maxX, maxY) the collision test is true exactly
  when \<open>x1 < wx2\<close>, \<open>x2 > wx1\<close>, \<open>y1 < wy2\<close> and \<open>y2 > wy1\<close>; two rectangles that share only a
  boundary edge (the right edge of one is the left edge of the other, or the top edge of one
  is the bottom edge of the other) do not collide. The test is a function of its two
  arguments alone.
\<close>

theorem check_collision_strict_overlap:
  "check_collision (x1, y1, x2, y2) [(wx1, wy1, wx2, wy2)] =
     (x1 < wx2 \<and> x2 > wx1 \<and> y1 < wy2 \<and> y2 > wy1)
   \<and> check_collision (x1, y1, x2, y2) [(x2, wy1, wx2, wy2)] = False
   \<and> check_collision (x1, y1, x2, y2) [(wx1, wy1, x1, wy2)] = False
   \<and> check_collision (x1, y1, x2, y2) [(wx1, y2, wx2, wy2)] = False
   \<and> check_collision (x1, y1, x2, y2) [(wx1, wy1, wx2, y1)] = False"
  by simp

theorem check_collision_strict_overlap_witness:
  "check_collision (0, 0, 2, 2) [(1, 1, 3, 3)] = True
   \<and> check_collision (0, 0, 2, 2) [(2, 0, 4, 2)] = False
   \<and> check_collision (0, 0, 2, 2) [(0, 2, 2, 4)] = False"
  using check_collision_strict_overlap [of 0 0 2 2 1 1 3 3]
    check_collision_strict_overlap [of 0 0 2 2 2 0 4 2]
    check_collision_strict_overlap [of 0 0 2 2 0 2 2 4]
  by simp

subsection \<open>The footprint of a candidate (C6)\<close>

text \<open>
  C6. In an attempt of the placement loop that draws \<open>x\<close>, \<open>y\<close>, \<open>direction\<close> and \<open>len\<close>,
  the footprint computed is \<open>(x, y, x + len * wall_length, y + wall_height)\<close> for the
  direction horizontal and \<open>(x, y, x + wall_length, y + len * wall_length)\<close> for the direction
  vertical. This footprint is the one given to \<open>check_collision\<close>: when it collides the loop
  goes on to the next attempt, and when it does not, the wall is committed with
  \<open>add_custom_wall\<close> and this footprint is appended to \<open>existing_walls\<close>.
\<close>

theorem wall_boundary_footprint:
  assumes "draw_candidate R maze w = ((x, y, direction, len), w1)"
    and "attempts < max_attempts"
  shows "(direction = ''horizontal'' \<longrightarrow>
            wall_boundary maze x y direction len
              = (x, y, x + of_int len * wall_length maze, y + wall_height maze))
       \<and> (direction = ''vertical'' \<longrightarrow>
            wall_boundary maze x y direction len
              = (x, y, x + wall_length maze, y + of_int len * wall_length maze))
       \<and> (check_collision (wall_boundary maze x y direction len) existing_walls \<longrightarrow>
            place_wall R maze existing_walls w attempts
              = place_wall R maze existing_walls w1 (attempts + 1))
       \<and> (\<not> check_collision (wall_boundary maze x y direction len) existing_walls \<longrightarrow>
            (\<exists>maze' w2. add_custom_wall R [x, y] direction len maze w1 = Inr (maze', w2)
               \<and> place_wall R maze existing_walls w attempts
                   = Inr (maze', existing_walls @ [wall_boundary maze x y direction len],
                          w2, attempts)))"
proof -
  obtain maze' w2 where ok: "add_custom_wall R [x, y] direction len maze w1 = Inr (maze', w2)"
    using add_custom_wall_pair by blast
  have unfold: "place_wall R maze existing_walls w attempts =
     (if \<not> check_collision (wall_boundary maze x y direction len) existing_walls then
        Inr (maze', existing_walls @ [wall_boundary maze x y direction len], w2, attempts)
      else place_wall R maze existing_walls w1 (attempts + 1))"
    using assms ok by (subst place_wall.simps) (simp add: Let_def)
  show ?thesis
    using unfold ok by (simp add: wall_boundary_def)
qed

theorem wall_boundary_footprint_witness:
  "draw_candidate gen_count maze0 (world0 0) = ((0, 1, ''horizontal'', 3), world0 2)
   \<and> (0::nat) < max_attempts
   \<and> wall_boundary maze0 0 1 ''horizontal'' 3 = (0, 1, 3, 2)
   \<and> (\<exists>maze' w2. place_wall gen_count maze0 [] (world0 0) 0 = Inr (maze', [(0, 1, 3, 2)], w2, 0))"
proof -
  have d: "draw_candidate gen_count maze0 (world0 0) = ((0, 1, ''horizontal'', 3), world0 2)"
    by (simp add: draw_candidate_def gen_count_def maze0_def world0_def random_uniform_def
          random_choice_def random_randint_def)
  have a: "(0::nat) < max_attempts"
    by (simp add: max_attempts_def)
  have b: "wall_boundary maze0 0 1 ''horizontal'' 3 = (0, 1, 3, 2)"
    by (simp add: wall_boundary_def maze0_def)
  show ?thesis
    using wall_boundary_footprint [OF d a, of "[]"] d a b by auto
qed

subsection \<open>Shape kinds on load (C8)\<close>

lemma shape_type_mapping_eq:
  "shape_type_mapping s = (if s = ''ssBox'' then Some ssBox else None)"
  by (simp add: shape_type_mapping_def)

text \<open>
  C8. The lookup table of \<open>from_dict\<close> has the single key \<open>ssBox\<close>. For a record whose
  shape string \<open>s\<close> is another string, \<open>from_dict\<close> fails with the KeyError of \<open>s\<close>
  (Python's exception for the missing key; the source has no exception class of its own),
  and so does the loop of \<open>load_maze\<close> that meets the record. For the string \<open>ssBox\<close>, and
  the other four keys present, \<open>from_dict\<close> succeeds with the obstacle built by the
  constructor.
\<close>

theorem from_dict_shape_kind:
  "(d_shape_type data = Some s \<and> s \<noteq> ''ssBox'' \<longrightarrow>
      shape_type_mapping s = None
      \<and> from_dict R cfg data w = Inl (KeyError s)
      \<and> load_obstacles R (data # rest) self w = Inl (KeyError s))
   \<and> (d_shape_type data = Some ''ssBox'' \<and> d_name data = Some nm \<and> d_size data = Some sz
        \<and> d_color data = Some col \<and> d_position data = Some pos \<longrightarrow>
      shape_type_mapping ''ssBox'' = Some ssBox
      \<and> from_dict R cfg data w = Inr (Obstacle R cfg nm ssBox sz col pos w))"
  by (simp add: from_dict_def shape_type_mapping_eq)

theorem from_dict_shape_kind_witness:
  "from_dict gen_const []
     \<lparr>d_name = Some ''w'', d_shape_type = Some ''unknownPrimitive'', d_size = Some [1],
      d_color = Some [0], d_position = Some [0]\<rparr> (world0 ())
     = Inl (KeyError ''unknownPrimitive'')
   \<and> from_dict gen_const []
     \<lparr>d_name = Some ''w'', d_shape_type = Some ''ssBox'', d_size = Some [1],
      d_color = Some [0], d_position = Some [0]\<rparr> (world0 ())
     = Inr (\<lparr>name = ''w_1000'', shape_type = ssBox, size_o = [1], color = [0], position = [0]\<rparr>,
            [\<lparr>frame_name = ''w_1000'', frame_shape = (ssBox, [1]), frame_color = [0],
              frame_position = [0]\<rparr>],
            world0 ())"
  using from_dict_shape_kind [of "\<lparr>d_name = Some ''w'', d_shape_type = Some ''unknownPrimitive'',
        d_size = Some [1], d_color = Some [0], d_position = Some [0]\<rparr>" "''unknownPrimitive''"
        gen_const "[]" "world0 ()" "[]" maze0 "''w''" "[1]" "[0]" "[0]"]
    from_dict_shape_kind [of "\<lparr>d_name = Some ''w'', d_shape_type = Some ''ssBox'',
        d_size = Some [1], d_color = Some [0], d_position = Some [0]\<rparr>" "''ssBox''"
        gen_const "[]" "world0 ()" "[]" maze0 "''w''" "[1]" "[0]" "[0]"]
  by (simp add: eval_defs)

subsection \<open>A document without the key custom_walls (C10)\<close>

lemma from_dict_ok:
  assumes "record_ok data"
  shows "from_dict R cfg data w =
           Inr (Obstacle R cfg (the (d_name data)) ssBox (the (d_size data)) (the (d_color data))
                  (the (d_position data)) w)"
  using assms by (auto simp: record_ok_def from_dict_def shape_type_mapping_eq)

lemma load_obstacles_ok:
  assumes "\<forall>data \<in> set records. record_ok data"
  shows "\<exists>self' w'. load_obstacles R records self w = Inr (self', w')"
  using assms
proof (induction records arbitrary: self w)
  case Nil
  then show ?case by simp
next
  case (Cons data records)
  have "record_ok data" using Cons.prems by simp
  then obtain ob cfg w1 where ob: "from_dict R (config self) data w = Inr (ob, cfg, w1)"
    using from_dict_ok [of data R "config self" w] by (metis prod_cases3)
  from Cons.IH [of "self\<lparr>config := cfg, obstacles := obstacles self @ [ob]\<rparr>" w1] Cons.prems
  show ?case by (simp add: ob)
qed

lemma from_dict_files:
  "from_dict R cfg data (w\<lparr>files := f\<rparr>) =
     (case from_dict R cfg data w of
        Inl e \<Rightarrow> Inl e
      | Inr (ob, cfg', w') \<Rightarrow> Inr (ob, cfg', w'\<lparr>files := f\<rparr>))"
  by (simp add: from_dict_def Obstacle_eq Let_def split: option.splits)

lemma load_obstacles_files:
  "load_obstacles R records self (w\<lparr>files := f\<rparr>) =
     (case load_obstacles R records self w of
        Inl e \<Rightarrow> Inl e
      | Inr (self', w') \<Rightarrow> Inr (self', w'\<lparr>files := f\<rparr>))"
proof (induction records arbitrary: self w)
  case Nil
  show ?case by simp
next
  case (Cons data records)
  show ?case
  proof (cases "from_dict R (config self) data w")
    case (Inl e)
    then show ?thesis by (simp add: from_dict_files)
  next
    case (Inr r)
    obtain ob cfg w1 where r: "r = (ob, cfg, w1)" by (cases r) auto
    show ?thesis using Inr Cons.IH unfolding r by (simp add: from_dict_files)
  qed
qed

text \<open>
  C10. Take a document that has no key \<open>custom_walls\<close>. Loading it gives the error or the
  maze that loading the same document with an empty list under \<open>custom_walls\<close> gives,
  whatever else the document holds. When the seven scalar keys and \<open>obstacles\<close> are present
  and every obstacle record can be rebuilt, \<open>load_maze\<close> succeeds and the custom-wall
  dictionary of the result is empty; the same document without the key \<open>obstacles\<close> fails
  with the KeyError of \<open>obstacles\<close>.
\<close>

theorem load_maze_without_custom_walls:
  assumes "files w file_path = Some doc"
    and "j_custom_walls doc = None"
  shows "map_sum id fst (load_maze R file_path self w)
           = map_sum id fst (load_maze R file_path self
               (w\<lparr>files := (files w)(file_path \<mapsto> doc\<lparr>j_custom_walls := Some []\<rparr>)\<rparr>))
       \<and> (j_size doc = Some v1 \<and> j_scale doc = Some v2 \<and> j_wall_height doc = Some v3
          \<and> j_wall_length doc = Some v4 \<and> j_maze_size doc = Some v5
          \<and> j_center_position doc = Some v6 \<and> j_wall_id_counter doc = Some v7
          \<and> j_obstacles doc = Some records \<and> (\<forall>data \<in> set records. record_ok data) \<longrightarrow>
            (\<exists>self' w'. load_maze R file_path self w = Inr (self', w') \<and> custom_walls self' = [])
            \<and> load_maze R file_path self
                 (w\<lparr>files := (files w)(file_path \<mapsto> doc\<lparr>j_obstacles := None\<rparr>)\<rparr>)
               = Inl (KeyError ''obstacles''))"
proof (intro conjI impI)
  show "map_sum id fst (load_maze R file_path self w)
           = map_sum id fst (load_maze R file_path self
               (w\<lparr>files := (files w)(file_path \<mapsto> doc\<lparr>j_custom_walls := Some []\<rparr>)\<rparr>))"
    using assms
    by (auto simp: load_maze_def print_def load_obstacles_files split: option.splits sum.splits)
next
  assume k: "j_size doc = Some v1 \<and> j_scale doc = Some v2 \<and> j_wall_height doc = Some v3
          \<and> j_wall_length doc = Some v4 \<and> j_maze_size doc = Some v5
          \<and> j_center_position doc = Some v6 \<and> j_wall_id_counter doc = Some v7
          \<and> j_obstacles doc = Some records \<and> (\<forall>data \<in> set records. record_ok data)"
  let ?self1 = "self\<lparr>size_m := v1, scale := v2, wall_height := v3, wall_length := v4,
                     maze_size := v5, center_position := v6, wall_id_counter := v7,
                     config := [], obstacles := []\<rparr>"
  obtain self2 w2 where l: "load_obstacles R records ?self1 w = Inr (self2, w2)"
    using load_obstacles_ok k by blast
  have "load_maze R file_path self w
          = Inr (self2\<lparr>custom_walls := []\<rparr>, print (''Maze loaded from '' @ file_path) w2)"
    using assms k l by (simp add: load_maze_def)
  then show "\<exists>self' w'. load_maze R file_path self w = Inr (self', w') \<and> custom_walls self' = []"
    by simp
  show "load_maze R file_path self
          (w\<lparr>files := (files w)(file_path \<mapsto> doc\<lparr>j_obstacles := None\<rparr>)\<rparr>)
        = Inl (KeyError ''obstacles'')"
    using k by (simp add: load_maze_def)
qed

definition doc0 :: maze_data where
  "doc0 = \<lparr>j_size = Some 4, j_scale = Some 1, j_wall_height = Some 1, j_wall_length = Some 1,
            j_maze_size = Some 4, j_center_position = Some [0, 0], j_wall_id_counter = Some 7,
            j_obstacles = Some [\<lparr>d_name = Some ''floor_1234'', d_shape_type = Some ''ssBox'',
                                 d_size = Some [4, 4, 0.1, 0.1], d_color = Some [0.8, 0.8, 0.8],
                                 d_position = Some [0, 0, - 0.05]\<rparr>],
            j_custom_walls = None,
            j_robot_position = None, j_robot_model = None, j_robot_quaternion = None\<rparr>"

theorem load_maze_without_custom_walls_witness:
  "files ((world0 ())\<lparr>files := [''maze_1.json'' \<mapsto> doc0]\<rparr>) ''maze_1.json'' = Some doc0
   \<and> j_custom_walls doc0 = None
   \<and> (\<exists>self' w'. load_maze gen_const ''maze_1.json'' maze0
                     ((world0 ())\<lparr>files := [''maze_1.json'' \<mapsto> doc0]\<rparr>) = Inr (self', w')
         \<and> custom_walls self' = [])"
proof -
  let ?w = "(world0 ())\<lparr>files := [''maze_1.json'' \<mapsto> doc0]\<rparr>"
  have f: "files ?w ''maze_1.json'' = Some doc0" by simp
  have c: "j_custom_walls doc0 = None" by (simp add: doc0_def)
  have k: "j_size doc0 = Some 4 \<and> j_scale doc0 = Some 1 \<and> j_wall_height doc0 = Some 1
          \<and> j_wall_length doc0 = Some 1 \<and> j_maze_size doc0 = Some 4
          \<and> j_center_position doc0 = Some [0, 0] \<and> j_wall_id_counter doc0 = Some 7
          \<and> j_obstacles doc0 = Some [\<lparr>d_name = Some ''floor_1234'', d_shape_type = Some ''ssBox'',
                                 d_size = Some [4, 4, 0.1, 0.1], d_color = Some [0.8, 0.8, 0.8],
                                 d_position = Some [0, 0, - 0.05]\<rparr>]
          \<and> (\<forall>data \<in> set [\<lparr>d_name = Some ''floor_1234'', d_shape_type = Some ''ssBox'',
                                 d_size = Some [4, 4, 0.1, 0.1], d_color = Some [0.8, 0.8, 0.8],
                                 d_position = Some [0, 0, - 0.05]\<rparr>]. record_ok data)"
    by (simp add: doc0_def record_ok_def)
  show ?thesis
    using load_maze_without_custom_walls [OF f c, of gen_const maze0] k f c by blast
qed


subsection \<open>Goal and final markers (C9)\<close>

lemma put_frame_fresh:
  "frame_name f \<notin> frame_name ` set cfg \<Longrightarrow> put_frame f cfg = cfg @ [f]"
  by (induction cfg) auto

lemma put_frame_mem: "f \<in> set (put_frame f cfg)"
  by (induction cfg) auto

lemma add_goal_object_effect:
  assumes "add_goal_object R coord self w = Inr (self', w')"
  shows "\<exists>ob. self' = self\<lparr>config := create_object (config self) ob, goal_object := Some ob,
                             obstacles := obstacles self @ [ob]\<rparr>
              \<and> take 12 (name ob) = ''goal_object_'' \<and> shape_type ob = ssBox"
proof -
  obtain c0 c1 cs where c: "coord = c0 # c1 # cs"
    using assms by (auto simp: add_goal_object_def split: list.splits)
  define ob where "ob = fst (Obstacle R (config self) ''goal_object'' ssBox [0.3, 0.3, 0.3, 0.1]
                               [0, 0, 1] [c0, c1, 0.2] w)"
  have "self' = self\<lparr>config := create_object (config self) ob, goal_object := Some ob,
                       obstacles := obstacles self @ [ob]\<rparr>"
    using assms unfolding c ob_def
    by (auto simp: add_goal_object_def Let_def split_beta Obstacle_frame)
  moreover have "take 12 (name ob) = ''goal_object_''" "shape_type ob = ssBox"
    by (simp_all add: ob_def Obstacle_eq Let_def)
  ultimately show ?thesis by blast
qed

lemma add_final_object_effect:
  assumes "add_final_object R coord self w = Inr (self', w')"
  shows "\<exists>ob. self' = self\<lparr>config := create_object (config self) ob, final_object := Some ob,
                             obstacles := obstacles self @ [ob]\<rparr>
              \<and> take 13 (name ob) = ''final_object_'' \<and> shape_type ob = ssBox"
proof -
  obtain c0 c1 cs where c: "coord = c0 # c1 # cs"
    using assms by (auto simp: add_final_object_def split: list.splits)
  define ob where "ob = fst (Obstacle R (config self) ''final_object'' ssBox [0.4, 0.4, 0.4, 0.1]
                               [1, 1, 0] [c0, c1, 0.3] w)"
  have "self' = self\<lparr>config := create_object (config self) ob, final_object := Some ob,
                       obstacles := obstacles self @ [ob]\<rparr>"
    using assms unfolding c ob_def
    by (auto simp: add_final_object_def Let_def split_beta Obstacle_frame)
  moreover have "take 13 (name ob) = ''final_object_''" "shape_type ob = ssBox"
    by (simp_all add: ob_def Obstacle_eq Let_def)
  ultimately show ?thesis by blast
qed

text \<open>Two goal markers with the same random id, and a third with another id.\<close>

definition goal1 :: obstacle where
  "goal1 = \<lparr>name = ''goal_object_1000'', shape_type = ssBox, size_o = [0.3, 0.3, 0.3, 0.1],
            color = [0, 0, 1], position = [0, 0, 0.2]\<rparr>"

definition goal2 :: obstacle where
  "goal2 = \<lparr>name = ''goal_object_1000'', shape_type = ssBox, size_o = [0.3, 0.3, 0.3, 0.1],
            color = [0, 0, 1], position = [1, 1, 0.2]\<rparr>"

definition goal3 :: obstacle where
  "goal3 = \<lparr>name = ''goal_object_1001'', shape_type = ssBox, size_o = [0.3, 0.3, 0.3, 0.1],
            color = [0, 0, 1], position = [1, 1, 0.2]\<rparr>"

definition maze_goal1 :: maze where
  "maze_goal1 = maze0\<lparr>config := [frame_of goal1], goal_object := Some goal1,
                       obstacles := [goal1]\<rparr>"

definition maze_goal2 :: maze where
  "maze_goal2 = maze0\<lparr>config := [frame_of goal2], goal_object := Some goal2,
                       obstacles := [goal1, goal2]\<rparr>"

definition maze_goal3 :: maze where
  "maze_goal3 = maze0\<lparr>config := [frame_of goal1, frame_of goal3], goal_object := Some goal3,
                       obstacles := [goal1, goal3]\<rparr>"

text \<open>
  C9, as the specification states it, fails for the scene when the second marker draws
  the random id of the first: both have the name \<open>goal_object_1000\<close>, the engine gives
  back the frame of that name, and the scene holds one frame, at the position of the
  second marker. The frame of the first marker is no longer in the scene; the obstacle
  list holds both markers.
\<close>

theorem second_marker_same_name:
  "add_goal_object gen_const [0, 0] maze0 (world0 ())
     = Inr (maze_goal1, (world0 ())\<lparr>printed := [''Goal object added.'']\<rparr>)
   \<and> add_goal_object gen_const [1, 1] maze_goal1 (world0 ())
     = Inr (maze_goal2, (world0 ())\<lparr>printed := [''Goal object added.'']\<rparr>)
   \<and> obstacles maze_goal2 = [goal1, goal2]
   \<and> frame_of goal1 \<in> set (config maze_goal1)
   \<and> config maze_goal2 = [frame_of goal2]
   \<and> frame_of goal1 \<notin> set (config maze_goal2)"
proof -
  have 1: "add_goal_object gen_const [0, 0] maze0 (world0 ())
             = Inr (maze_goal1, (world0 ())\<lparr>printed := [''Goal object added.'']\<rparr>)"
    by (simp add: add_goal_object_def maze_goal1_def goal1_def eval_defs)
  have 2: "add_goal_object gen_const [1, 1] maze_goal1 (world0 ())
             = Inr (maze_goal2, (world0 ())\<lparr>printed := [''Goal object added.'']\<rparr>)"
    by (simp add: add_goal_object_def maze_goal1_def maze_goal2_def goal1_def goal2_def eval_defs)
  show ?thesis
    using 1 2 by (simp add: maze_goal1_def maze_goal2_def goal1_def goal2_def frame_of_def)
qed

text \<open>
  C9, amended. The maze holds one reference to a goal marker and one to a final marker
  (\<open>goal_object\<close>, \<open>final_object\<close>). When \<open>add_goal_object\<close> is called on the maze that a
  first call returned, the reference is the second marker, the obstacle list ends with the
  first marker followed by the second, and the maze differs from the one before the second
  call in the reference, the obstacle list and the scene only. The frame of the first
  marker is in the scene before the second call, and when the name of the second marker is
  not the name of a frame of the scene, the second call adds one frame at the end and
  leaves every other frame as it was. The same holds for \<open>add_final_object\<close>.
\<close>

theorem second_marker_keeps_first:
  "(add_goal_object R c1 self w = Inr (self1, w1) \<and> add_goal_object R c2 self1 v = Inr (self2, w2)
      \<longrightarrow> (\<exists>g1 g2. goal_object self1 = Some g1 \<and> goal_object self2 = Some g2
            \<and> obstacles self2 = obstacles self @ [g1, g2]
            \<and> self2 = self1\<lparr>config := create_object (config self1) g2, goal_object := Some g2,
                              obstacles := obstacles self1 @ [g2]\<rparr>
            \<and> frame_of g1 \<in> set (config self1)
            \<and> (name g2 \<notin> frame_name ` set (config self1) \<longrightarrow>
                 config self2 = config self1 @ [frame_of g2])))
   \<and> (add_final_object R c1 self w = Inr (self1, w1) \<and> add_final_object R c2 self1 v = Inr (self2, w2)
      \<longrightarrow> (\<exists>f1 f2. final_object self1 = Some f1 \<and> final_object self2 = Some f2
            \<and> obstacles self2 = obstacles self @ [f1, f2]
            \<and> self2 = self1\<lparr>config := create_object (config self1) f2, final_object := Some f2,
                              obstacles := obstacles self1 @ [f2]\<rparr>
            \<and> frame_of f1 \<in> set (config self1)
            \<and> (name f2 \<notin> frame_name ` set (config self1) \<longrightarrow>
                 config self2 = config self1 @ [frame_of f2])))"
proof (intro conjI impI)
  assume a: "add_goal_object R c1 self w = Inr (self1, w1)
               \<and> add_goal_object R c2 self1 v = Inr (self2, w2)"
  obtain g1 where g1: "self1 = self\<lparr>config := create_object (config self) g1,
                             goal_object := Some g1, obstacles := obstacles self @ [g1]\<rparr>"
    using a add_goal_object_effect by blast
  obtain g2 where g2: "self2 = self1\<lparr>config := create_object (config self1) g2,
                             goal_object := Some g2, obstacles := obstacles self1 @ [g2]\<rparr>"
    using a add_goal_object_effect by blast
  have m: "frame_of g1 \<in> set (config self1)"
    by (simp add: g1 create_object_def put_frame_mem)
  have f: "name g2 \<notin> frame_name ` set (config self1) \<longrightarrow>
             config self2 = config self1 @ [frame_of g2]"
    by (simp add: g2 create_object_def put_frame_fresh frame_of_def)
  show "\<exists>g1 g2. goal_object self1 = Some g1 \<and> goal_object self2 = Some g2
            \<and> obstacles self2 = obstacles self @ [g1, g2]
            \<and> self2 = self1\<lparr>config := create_object (config self1) g2, goal_object := Some g2,
                              obstacles := obstacles self1 @ [g2]\<rparr>
            \<and> frame_of g1 \<in> set (config self1)
            \<and> (name g2 \<notin> frame_name ` set (config self1) \<longrightarrow>
                 config self2 = config self1 @ [frame_of g2])"
    apply (rule exI [of _ g1], rule exI [of _ g2])
    using g2 m f by (simp add: g1)
next
  assume a: "add_final_object R c1 self w = Inr (self1, w1)
               \<and> add_final_object R c2 self1 v = Inr (self2, w2)"
  obtain f1 where f1: "self1 = self\<lparr>config := create_object (config self) f1,
                             final_object := Some f1, obstacles := obstacles self @ [f1]\<rparr>"
    using a add_final_object_effect by blast
  obtain f2 where f2: "self2 = self1\<lparr>config := create_object (config self1) f2,
                             final_object := Some f2, obstacles := obstacles self1 @ [f2]\<rparr>"
    using a add_final_object_effect by blast
  have m: "frame_of f1 \<in> set (config self1)"
    by (simp add: f1 create_object_def put_frame_mem)
  have f: "name f2 \<notin> frame_name ` set (config self1) \<longrightarrow>
             config self2 = config self1 @ [frame_of f2]"
    by (simp add: f2 create_object_def put_frame_fresh frame_of_def)
  show "\<exists>f1 f2. final_object self1 = Some f1 \<and> final_object self2 = Some f2
            \<and> obstacles self2 = obstacles self @ [f1, f2]
            \<and> self2 = self1\<lparr>config := create_object (config self1) f2, final_object := Some f2,
                              obstacles := obstacles self1 @ [f2]\<rparr>
            \<and> frame_of f1 \<in> set (config self1)
            \<and> (name f2 \<notin> frame_name ` set (config self1) \<longrightarrow>
                 config self2 = config self1 @ [frame_of f2])"
    apply (rule exI [of _ f1], rule exI [of _ f2])
    using f2 m f by (simp add: f1)
qed

theorem second_marker_keeps_first_witness:
  "add_goal_object gen_count [0, 0] maze0 (world0 0)
     = Inr (maze_goal1, (world0 0)\<lparr>printed := [''Goal object added.'']\<rparr>)
   \<and> add_goal_object gen_count [1, 1] maze_goal1 (world0 1)
     = Inr (maze_goal3, (world0 1)\<lparr>printed := [''Goal object added.'']\<rparr>)
   \<and> name goal3 \<notin> frame_name ` set (config maze_goal1)
   \<and> goal_object maze_goal3 = Some goal3
   \<and> obstacles maze_goal3 = obstacles maze0 @ [goal1, goal3]
   \<and> config maze_goal3 = config maze_goal1 @ [frame_of goal3]
   \<and> frame_of goal1 \<in> set (config maze_goal3)"
proof -
  have 1: "add_goal_object gen_count [0, 0] maze0 (world0 0)
             = Inr (maze_goal1, (world0 0)\<lparr>printed := [''Goal object added.'']\<rparr>)"
    by (simp add: add_goal_object_def maze_goal1_def goal1_def eval_defs)
  have 2: "add_goal_object gen_count [1, 1] maze_goal1 (world0 1)
             = Inr (maze_goal3, (world0 1)\<lparr>printed := [''Goal object added.'']\<rparr>)"
    by (simp add: add_goal_object_def maze_goal1_def maze_goal3_def goal1_def goal3_def eval_defs)
  have n: "name goal3 \<notin> frame_name ` set (config maze_goal1)"
    by (simp add: maze_goal1_def goal1_def goal3_def frame_of_def)
  have g: "goal_object maze_goal1 = Some goal1" "goal_object maze_goal3 = Some goal3"
    by (simp_all add: maze_goal1_def maze_goal3_def)
  obtain g1 g2 where r: "goal_object maze_goal1 = Some g1" "goal_object maze_goal3 = Some g2"
      "obstacles maze_goal3 = obstacles maze0 @ [g1, g2]"
      "frame_of g1 \<in> set (config maze_goal1)"
      "name g2 \<notin> frame_name ` set (config maze_goal1) \<longrightarrow>
         config maze_goal3 = config maze_goal1 @ [frame_of g2]"
    using second_marker_keeps_first [of gen_count "[0, 0]" maze0 "world0 0" maze_goal1
        "(world0 0)\<lparr>printed := [''Goal object added.'']\<rparr>" "[1, 1]" "world0 1" maze_goal3
        "(world0 1)\<lparr>printed := [''Goal object added.'']\<rparr>"] 1 2
    by blast
  have e: "g1 = goal1" "g2 = goal3" using r(1,2) g by simp_all
  show ?thesis
    using 1 2 n g(2) r(3,4,5) unfolding e by simp
qed


subsection \<open>The perimeter (C7)\<close>

text \<open>A name that is not empty and does not begin with the letter c, as every name but a
  custom wall's.\<close>

definition plain :: "obstacle \<Rightarrow> bool" where
  "plain ob \<longleftrightarrow> name ob \<noteq> [] \<and> hd (name ob) \<noteq> CHR ''c''"

definition perimeter_wall :: "real list \<Rightarrow> obstacle \<Rightarrow> bool" where
  "perimeter_wall cs ob \<longleftrightarrow> size_o ob = cs \<and> plain ob \<and> shape_type ob = ssBox"

lemma count_side_simps [simp]:
  "count_side p [] = 0"
  "count_side p (ob # obs) = (if starts p ob then Suc (count_side p obs) else count_side p obs)"
  "count_side p (xs @ ys) = count_side p xs + count_side p ys"
  by (simp_all add: count_side_def)

lemma top_bottom_step_extended:
  "\<exists>t b w'. top_bottom_step R wc cs ox oy i (self, w) = (extended self [t, b] 2, w')
      \<and> count_side ''top_wall_'' [t, b] = 1 \<and> count_side ''bottom_wall_'' [t, b] = 1
      \<and> count_side ''left_wall_'' [t, b] = 0 \<and> count_side ''right_wall_'' [t, b] = 0
      \<and> perimeter_wall cs t \<and> perimeter_wall cs b"
proof -
  let ?x = "ox + of_int i * wall_length self - wall_length self / 2"
  let ?p1 = "[?x, oy - wall_length self / 2, wall_height self / 2]"
  obtain u1 w1 where a1: "add_wall R (''top_wall_'' @ str_int i) ?p1 cs wc self w
        = (extended self [wall_named (''top_wall_'' @ str_int i) u1 ?p1 cs wc] 1, w1)"
    using add_wall_extended by blast
  let ?s1 = "extended self [wall_named (''top_wall_'' @ str_int i) u1 ?p1 cs wc] 1"
  let ?p2 = "[?x, oy + maze_size ?s1 + wall_length ?s1 / 2, wall_height ?s1 / 2]"
  obtain u2 w2 where a2: "add_wall R (''bottom_wall_'' @ str_int i) ?p2 cs wc ?s1 w1
        = (extended ?s1 [wall_named (''bottom_wall_'' @ str_int i) u2 ?p2 cs wc] 1, w2)"
    using add_wall_extended by blast
  have "top_bottom_step R wc cs ox oy i (self, w) =
     (extended self [wall_named (''top_wall_'' @ str_int i) u1 ?p1 cs wc,
                     wall_named (''bottom_wall_'' @ str_int i) u2 ?p2 cs wc] 2, w2)"
    unfolding top_bottom_step_def Let_def
    by (simp only: prod.case a1 a2 extended_extended) simp
  then show ?thesis
    by (intro exI [of _ "wall_named (''top_wall_'' @ str_int i) u1 ?p1 cs wc"]
          exI [of _ "wall_named (''bottom_wall_'' @ str_int i) u2 ?p2 cs wc"] exI [of _ w2])
       (simp add: starts_def wall_named_def perimeter_wall_def plain_def)
qed

lemma left_right_step_extended:
  "\<exists>l r w'. left_right_step R wc cs ox oy i (self, w) = (extended self [l, r] 2, w')
      \<and> count_side ''top_wall_'' [l, r] = 0 \<and> count_side ''bottom_wall_'' [l, r] = 0
      \<and> count_side ''left_wall_'' [l, r] = 1 \<and> count_side ''right_wall_'' [l, r] = 1
      \<and> perimeter_wall cs l \<and> perimeter_wall cs r"
proof -
  let ?y = "oy + of_int i * wall_length self - wall_length self / 2"
  let ?p1 = "[ox - wall_length self / 2, ?y, wall_height self / 2]"
  obtain u1 w1 where a1: "add_wall R (''left_wall_'' @ str_int i) ?p1 cs wc self w
        = (extended self [wall_named (''left_wall_'' @ str_int i) u1 ?p1 cs wc] 1, w1)"
    using add_wall_extended by blast
  let ?s1 = "extended self [wall_named (''left_wall_'' @ str_int i) u1 ?p1 cs wc] 1"
  let ?p2 = "[ox + maze_size ?s1 + wall_length ?s1 / 2, ?y, wall_height ?s1 / 2]"
  obtain u2 w2 where a2: "add_wall R (''right_wall_'' @ str_int i) ?p2 cs wc ?s1 w1
        = (extended ?s1 [wall_named (''right_wall_'' @ str_int i) u2 ?p2 cs wc] 1, w2)"
    using add_wall_extended by blast
  have "left_right_step R wc cs ox oy i (self, w) =
     (extended self [wall_named (''left_wall_'' @ str_int i) u1 ?p1 cs wc,
                     wall_named (''right_wall_'' @ str_int i) u2 ?p2 cs wc] 2, w2)"
    unfolding left_right_step_def Let_def
    by (simp only: prod.case a1 a2 extended_extended) simp
  then show ?thesis
    by (intro exI [of _ "wall_named (''left_wall_'' @ str_int i) u1 ?p1 cs wc"]
          exI [of _ "wall_named (''right_wall_'' @ str_int i) u2 ?p2 cs wc"] exI [of _ w2])
       (simp add: starts_def wall_named_def perimeter_wall_def plain_def)
qed

text \<open>What a loop of \<open>create_maze\<close> adds: \<open>a\<close> walls of the one side and \<open>b\<close> of the other per
  index, as counted by the first letters of the names.\<close>

definition side_counts :: "nat \<Rightarrow> nat \<Rightarrow> nat \<Rightarrow> real list \<Rightarrow> obstacle list \<Rightarrow> bool" where
  "side_counts n a b cs news \<longleftrightarrow>
     length news = 2 * n
     \<and> count_side ''top_wall_'' news = a * n \<and> count_side ''bottom_wall_'' news = a * n
     \<and> count_side ''left_wall_'' news = b * n \<and> count_side ''right_wall_'' news = b * n
     \<and> (\<forall>ob \<in> set news. perimeter_wall cs ob)"

lemma top_bottom_loop:
  "\<exists>news w'. fold (top_bottom_step R wc cs ox oy) idx (self, w)
                 = (extended self news (2 * int (length idx)), w')
     \<and> side_counts (length idx) 1 0 cs news"
proof (induction idx arbitrary: self w)
  case Nil
  show ?case by (simp add: extended_def side_counts_def)
next
  case (Cons i idx)
  obtain t b w1 where st: "top_bottom_step R wc cs ox oy i (self, w) = (extended self [t, b] 2, w1)"
    and nm: "count_side ''top_wall_'' [t, b] = 1" "count_side ''bottom_wall_'' [t, b] = 1"
      "count_side ''left_wall_'' [t, b] = 0" "count_side ''right_wall_'' [t, b] = 0"
      "perimeter_wall cs t" "perimeter_wall cs b"
    using top_bottom_step_extended [of R wc cs ox oy i self w] by blast
  obtain news w' where ih:
    "fold (top_bottom_step R wc cs ox oy) idx (extended self [t, b] 2, w1)
       = (extended (extended self [t, b] 2) news (2 * int (length idx)), w')"
    "side_counts (length idx) 1 0 cs news"
    using Cons.IH [of "extended self [t, b] 2" w1] by blast
  have "side_counts (length (i # idx)) 1 0 cs ([t, b] @ news)"
    using ih(2) nm unfolding side_counts_def count_side_simps(3) by simp
  then show ?case
    apply (intro exI [of _ "[t, b] @ news"] exI [of _ w'])
    using ih(1) by (simp add: st extended_extended)
qed

lemma left_right_loop:
  "\<exists>news w'. fold (left_right_step R wc cs ox oy) idx (self, w)
                 = (extended self news (2 * int (length idx)), w')
     \<and> side_counts (length idx) 0 1 cs news"
proof (induction idx arbitrary: self w)
  case Nil
  show ?case by (simp add: extended_def side_counts_def)
next
  case (Cons i idx)
  obtain l r w1 where st: "left_right_step R wc cs ox oy i (self, w) = (extended self [l, r] 2, w1)"
    and nm: "count_side ''top_wall_'' [l, r] = 0" "count_side ''bottom_wall_'' [l, r] = 0"
      "count_side ''left_wall_'' [l, r] = 1" "count_side ''right_wall_'' [l, r] = 1"
      "perimeter_wall cs l" "perimeter_wall cs r"
    using left_right_step_extended [of R wc cs ox oy i self w] by blast
  obtain news w' where ih:
    "fold (left_right_step R wc cs ox oy) idx (extended self [l, r] 2, w1)
       = (extended (extended self [l, r] 2) news (2 * int (length idx)), w')"
    "side_counts (length idx) 0 1 cs news"
    using Cons.IH [of "extended self [l, r] 2" w1] by blast
  have "side_counts (length (i # idx)) 0 1 cs ([l, r] @ news)"
    using ih(2) nm unfolding side_counts_def count_side_simps(3) by simp
  then show ?case
    apply (intro exI [of _ "[l, r] @ news"] exI [of _ w'])
    using ih(1) by (simp add: st extended_extended)
qed

lemma create_maze_extended:
  "\<exists>news w'. create_maze R self w = (extended self news (4 * int (nat (size_m self + 2))), w')
     \<and> length news = 4 * nat (size_m self + 2)
     \<and> count_side ''top_wall_'' news = nat (size_m self + 2)
     \<and> count_side ''bottom_wall_'' news = nat (size_m self + 2)
     \<and> count_side ''left_wall_'' news = nat (size_m self + 2)
     \<and> count_side ''right_wall_'' news = nat (size_m self + 2)
     \<and> (\<forall>ob \<in> set news.
           perimeter_wall [wall_length self, wall_length self, wall_height self, 0.1] ob)"
proof -
  let ?wc = "[0.35, 0.16, 0.14] :: real list"
  let ?cs = "[wall_length self, wall_length self, wall_height self, 0.1]"
  let ?o = "- maze_size self / 2"
  let ?n = "nat (size_m self + 2)"
  obtain n1 w1 where l1:
    "fold (top_bottom_step R ?wc ?cs ?o ?o) (py_range (size_m self + 2)) (self, w)
       = (extended self n1 (2 * int ?n), w1)"
    "side_counts ?n 1 0 ?cs n1"
    using top_bottom_loop [of R ?wc ?cs ?o ?o "py_range (size_m self + 2)" self w] by auto
  obtain n2 w2 where l2:
    "fold (left_right_step R ?wc ?cs ?o ?o) (py_range (size_m self + 2))
       (extended self n1 (2 * int ?n), w1)
       = (extended (extended self n1 (2 * int ?n)) n2 (2 * int ?n), w2)"
    "side_counts ?n 0 1 ?cs n2"
    using left_right_loop [of R ?wc ?cs ?o ?o "py_range (size_m self + 2)"
            "extended self n1 (2 * int ?n)" w1] by auto
  have "create_maze R self w = (extended self (n1 @ n2) (4 * int ?n), w2)"
    unfolding create_maze_def Let_def
    by (simp only: l1(1) fst_conv extended_fields l2(1) extended_extended) simp
  then show ?thesis
    apply (intro exI [of _ "n1 @ n2"] exI [of _ w2])
    using l1(2) l2(2) unfolding side_counts_def by auto
qed

lemma create_floor_extended:
  assumes "center_position self = [cx, cy]"
  shows "\<exists>fl w'. create_floor R self w = Inr (extended self [fl] 0, w')
           \<and> starts ''floor_'' fl \<and> plain fl \<and> shape_type fl = ssBox"
proof -
  define fl where "fl = fst (Obstacle R (config self) ''floor'' ssBox
     [maze_size self, maze_size self, 0.1, 0.1] [0.8, 0.8, 0.8] [cx, cy, - 0.1 / 2] w)"
  have "create_floor R self w
          = Inr (extended self [fl] 0, snd (snd (Obstacle R (config self) ''floor'' ssBox
     [maze_size self, maze_size self, 0.1, 0.1] [0.8, 0.8, 0.8] [cx, cy, - 0.1 / 2] w)))"
    using assms by (simp add: create_floor_def Let_def split_beta extended_def Obstacle_frame fl_def)
  moreover have "starts ''floor_'' fl" "plain fl" "shape_type fl = ssBox"
    by (simp_all add: fl_def Obstacle_eq Let_def starts_def plain_def)
  ultimately show ?thesis by blast
qed




subsection \<open>Custom walls and the placement loops\<close>

text \<open>
  \<open>custom_id lo hi ob\<close>: \<open>ob\<close> is a rounded box whose name is \<open>custom_wall_\<close>, a wall id
  \<open>k\<close> with \<open>lo \<le> k < hi\<close>, an underscore and a rest (the random suffix).
\<close>

lemma custom_wall_step_eq:
  "custom_wall_step R wc cs pos i (self, w) =
     (extended self
        [wall_named (''custom_wall_'' @ str_int (wall_id_counter self))
           (fst (randint R 1000 9999 (rand_state w))) (pos i self) cs wc] 2,
      w\<lparr>rand_state := snd (randint R 1000 9999 (rand_state w))\<rparr>)"
  by (simp add: custom_wall_step_def add_wall_eq Let_def extended_def)

definition custom_id :: "int \<Rightarrow> int \<Rightarrow> obstacle \<Rightarrow> bool" where
  "custom_id lo hi ob \<longleftrightarrow>
     shape_type ob = ssBox
     \<and> (\<exists>k rest. name ob = ''custom_wall_'' @ str_int k @ ''_'' @ rest \<and> lo \<le> k \<and> k < hi)"

lemma custom_id_mono: "custom_id lo hi ob \<Longrightarrow> lo' \<le> lo \<Longrightarrow> hi \<le> hi' \<Longrightarrow> custom_id lo' hi' ob"
  unfolding custom_id_def by force

lemma custom_loop:
  "\<exists>news w'. fold (custom_wall_step R wc cs pos) idx (self, w)
                 = (extended self news (2 * int (length idx)), w')
     \<and> printed w' = printed w \<and> files w' = files w
     \<and> length news = length idx
     \<and> (\<forall>ob \<in> set news.
           custom_id (wall_id_counter self) (wall_id_counter self + 2 * int (length idx)) ob)"
proof (induction idx arbitrary: self w)
  case Nil
  show ?case by (simp add: extended_def)
next
  case (Cons i idx)
  let ?ob = "wall_named (''custom_wall_'' @ str_int (wall_id_counter self))
               (fst (randint R 1000 9999 (rand_state w))) (pos i self) cs wc"
  let ?w1 = "w\<lparr>rand_state := snd (randint R 1000 9999 (rand_state w))\<rparr>"
  obtain news w' where ih:
    "fold (custom_wall_step R wc cs pos) idx (extended self [?ob] 2, ?w1)
       = (extended (extended self [?ob] 2) news (2 * int (length idx)), w')"
    "printed w' = printed ?w1" "files w' = files ?w1" "length news = length idx"
    "\<forall>ob \<in> set news. custom_id (wall_id_counter (extended self [?ob] 2))
                         (wall_id_counter (extended self [?ob] 2) + 2 * int (length idx)) ob"
    using Cons.IH [of "extended self [?ob] 2" ?w1] by blast
  have first: "custom_id (wall_id_counter self) (wall_id_counter self + 2 * int (length (i # idx))) ?ob"
    unfolding custom_id_def wall_named_def
    by (intro conjI exI [of _ "wall_id_counter self"]) simp_all
  have rest: "\<forall>ob \<in> set news.
      custom_id (wall_id_counter self) (wall_id_counter self + 2 * int (length (i # idx))) ob"
  proof
    fix ob assume "ob \<in> set news"
    with ih(5) have "custom_id (wall_id_counter (extended self [?ob] 2))
                         (wall_id_counter (extended self [?ob] 2) + 2 * int (length idx)) ob"
      by blast
    then show "custom_id (wall_id_counter self) (wall_id_counter self + 2 * int (length (i # idx))) ob"
      by (rule custom_id_mono) simp_all
  qed
  show ?case
    apply (rule exI [of _ "?ob # news"], rule exI [of _ w'])
    using ih(1-4) first rest by (simp add: custom_wall_step_eq extended_extended)
qed

lemma add_custom_wall_effect:
  assumes "add_custom_wall R start_coords direction len self w = Inr (self', w')"
  shows "\<exists>news k. self' = extended self news k \<and> 0 \<le> k
           \<and> printed w' = printed w \<and> files w' = files w
           \<and> (\<forall>ob \<in> set news. custom_id (wall_id_counter self) (wall_id_counter self + k) ob)"
proof -
  obtain x y where xy: "start_coords = [x, y]"
    using assms by (auto simp: add_custom_wall_def Let_def split: list.splits)
  let ?cs = "[wall_length self, wall_length self, wall_height self, 0.1]"
  let ?wc = "[0.25, 0.25, 0.25] :: real list"
  consider (h) "direction = ''horizontal''"
    | (v) "direction \<noteq> ''horizontal''" "direction = ''vertical''"
    | (n) "direction \<noteq> ''horizontal''" "direction \<noteq> ''vertical''"
    by blast
  then show ?thesis
  proof cases
    case h
    let ?pos = "\<lambda>i self. [x + of_int i * wall_length self, y, wall_height self / 2]"
    obtain news v where l:
      "fold (custom_wall_step R ?wc ?cs ?pos) (py_range len) (self, w)
         = (extended self news (2 * int (length (py_range len))), v)"
      "printed v = printed w" "files v = files w"
      "\<forall>ob \<in> set news. custom_id (wall_id_counter self)
                           (wall_id_counter self + 2 * int (length (py_range len))) ob"
      using custom_loop [of R ?wc ?cs ?pos "py_range len" self w] by blast
    have "self' = extended self news (2 * int (length (py_range len))) \<and> w' = v"
      using assms unfolding xy add_custom_wall_def Let_def
      by (simp only: list.case h if_True l(1)) simp
    then show ?thesis using l by (intro exI [of _ news] exI [of _ "2 * int (length (py_range len))"]) simp
  next
    case v
    let ?pos = "\<lambda>i self. [x, y + of_int i * wall_length self, wall_height self / 2]"
    obtain news u where l:
      "fold (custom_wall_step R ?wc ?cs ?pos) (py_range len) (self, w)
         = (extended self news (2 * int (length (py_range len))), u)"
      "printed u = printed w" "files u = files w"
      "\<forall>ob \<in> set news. custom_id (wall_id_counter self)
                           (wall_id_counter self + 2 * int (length (py_range len))) ob"
      using custom_loop [of R ?wc ?cs ?pos "py_range len" self w] by blast
    have "self' = extended self news (2 * int (length (py_range len))) \<and> w' = u"
      using assms unfolding xy add_custom_wall_def Let_def
      by (simp only: list.case v if_True if_False l(1)) simp
    then show ?thesis using l by (intro exI [of _ news] exI [of _ "2 * int (length (py_range len))"]) simp
  next
    case n
    have "self' = self \<and> w' = w"
      using assms n unfolding xy by (simp add: add_custom_wall_def)
    then show ?thesis
      by (intro exI [of _ "[]"] exI [of _ 0]) (simp add: extended_def)
  qed
qed

lemma check_collision_iff:
  "check_collision b ws \<longleftrightarrow> (\<exists>w \<in> set ws. check_collision b [w])"
proof (induction ws)
  case Nil
  show ?case by simp
next
  case (Cons w ws)
  obtain x1 y1 x2 y2 where b: "b = (x1, y1, x2, y2)" by (cases b) auto
  obtain wx1 wy1 wx2 wy2 where w: "w = (wx1, wy1, wx2, wy2)" by (cases w) auto
  show ?case using Cons.IH unfolding b w by auto
qed

lemma check_collision_sym: "check_collision a [b] = check_collision b [a]"
proof -
  obtain x1 y1 x2 y2 where a: "a = (x1, y1, x2, y2)" by (cases a) auto
  obtain wx1 wy1 wx2 wy2 where b: "b = (wx1, wy1, wx2, wy2)" by (cases b) auto
  show ?thesis unfolding a b by auto
qed

text \<open>Every footprint of the list was free of collision with all footprints before it.\<close>

definition each_tested :: "footprint list \<Rightarrow> bool" where
  "each_tested ws \<longleftrightarrow> (\<forall>j < length ws. \<not> check_collision (ws ! j) (take j ws))"

lemma each_tested_Nil [simp]: "each_tested []"
  by (simp add: each_tested_def)

lemma each_tested_snoc:
  assumes "each_tested ws" and "\<not> check_collision b ws"
  shows "each_tested (ws @ [b])"
  unfolding each_tested_def
proof (intro allI impI)
  fix j assume j: "j < length (ws @ [b])"
  show "\<not> check_collision ((ws @ [b]) ! j) (take j (ws @ [b]))"
  proof (cases "j < length ws")
    case True
    then show ?thesis using assms(1) by (simp add: each_tested_def nth_append)
  next
    case False
    with j have "j = length ws" by simp
    then show ?thesis using assms(2) by simp
  qed
qed

lemma each_tested_pairwise:
  assumes "each_tested ws" and "i < length ws" and "j < length ws" and "i \<noteq> j"
  shows "\<not> check_collision (ws ! i) [ws ! j]"
proof -
  have lt: "\<not> check_collision (ws ! q) [ws ! p]" if "p < q" "q < length ws" for p q
  proof -
    have "p < length (take q ws)" using that by simp
    then have "take q ws ! p \<in> set (take q ws)" by (rule nth_mem)
    then have "ws ! p \<in> set (take q ws)" using that by simp
    moreover have "\<not> check_collision (ws ! q) (take q ws)"
      using assms(1) that(2) by (simp add: each_tested_def)
    ultimately show ?thesis using check_collision_iff by blast
  qed
  show ?thesis
  proof (cases "i < j")
    case True
    then show ?thesis using lt [of i j] assms(3) check_collision_sym by blast
  next
    case False
    with assms(4) have "j < i" by simp
    then show ?thesis using lt [of j i] assms(2) by blast
  qed
qed

lemma draw_candidate_world:
  "printed (snd (draw_candidate R maze w)) = printed w"
  "files (snd (draw_candidate R maze w)) = files w"
  by (simp_all add: draw_candidate_def random_uniform_def random_choice_def random_randint_def
        Let_def split_beta)

text \<open>One wall was committed: a footprint that collides with none of \<open>ex\<close> is appended,
  and the maze has grown by custom-wall segments.\<close>

definition placed :: "maze \<Rightarrow> footprint list \<Rightarrow> maze \<Rightarrow> footprint list \<Rightarrow> bool" where
  "placed maze ex maze' ex' \<longleftrightarrow>
     (\<exists>b news k. ex' = ex @ [b] \<and> \<not> check_collision b ex \<and> maze' = extended maze news k
        \<and> 0 \<le> k
        \<and> (\<forall>ob \<in> set news. custom_id (wall_id_counter maze) (wall_id_counter maze + k) ob))"

lemma place_wall_cases:
  "attempts \<le> max_attempts \<Longrightarrow>
   \<exists>maze' ex' w' a. place_wall R maze ex w attempts = Inr (maze', ex', w', a)
      \<and> printed w' = printed w \<and> files w' = files w
      \<and> attempts \<le> a \<and> a \<le> max_attempts
      \<and> (if a = max_attempts then maze' = maze \<and> ex' = ex else placed maze ex maze' ex')"
proof (induction R maze ex w attempts rule: place_wall.induct)
  case (1 R maze ex w attempts)
  define cand where "cand = fst (draw_candidate R maze w)"
  define w1 where "w1 = snd (draw_candidate R maze w)"
  define x where "x = fst cand"
  define y where "y = fst (snd cand)"
  define direction where "direction = fst (snd (snd cand))"
  define len where "len = snd (snd (snd cand))"
  define b where "b = wall_boundary maze x y direction len"
  have w1: "printed w1 = printed w" "files w1 = files w"
    by (simp_all add: w1_def draw_candidate_world)
  show ?case
  proof (cases "attempts < max_attempts")
    case False
    with "1.prems" have "attempts = max_attempts" by simp
    then show ?thesis by (subst place_wall.simps) simp
  next
    case lt: True
    show ?thesis
    proof (cases "check_collision b ex")
      case True
      have step: "place_wall R maze ex w attempts = place_wall R maze ex w1 (attempts + 1)"
        using lt True
        by (subst place_wall.simps)
           (simp add: Let_def cand_def w1_def x_def y_def direction_def len_def b_def)
      have "\<exists>maze' ex' w' a. place_wall R maze ex w1 (attempts + 1) = Inr (maze', ex', w', a)
          \<and> printed w' = printed w1 \<and> files w' = files w1
          \<and> attempts + 1 \<le> a \<and> a \<le> max_attempts
          \<and> (if a = max_attempts then maze' = maze \<and> ex' = ex else placed maze ex maze' ex')"
        using "1.IH" [OF lt cand_def w1_def x_def y_def direction_def len_def b_def] True lt
        by simp
      then obtain maze' ex' w' a where r: "place_wall R maze ex w1 (attempts + 1) = Inr (maze', ex', w', a)"
          "printed w' = printed w1" "files w' = files w1"
          "attempts + 1 \<le> a" "a \<le> max_attempts"
          "if a = max_attempts then maze' = maze \<and> ex' = ex else placed maze ex maze' ex'"
        by blast
      show ?thesis
        apply (intro exI [of _ maze'] exI [of _ ex'] exI [of _ w'] exI [of _ a])
        using r w1 by (simp add: step)
    next
      case False
      obtain maze' w2 where ok: "add_custom_wall R [x, y] direction len maze w1 = Inr (maze', w2)"
        using add_custom_wall_pair by blast
      have step: "place_wall R maze ex w attempts = Inr (maze', ex @ [b], w2, attempts)"
        using lt False ok
        by (subst place_wall.simps)
           (simp add: Let_def cand_def w1_def x_def y_def direction_def len_def b_def)
      obtain news k where eff: "maze' = extended maze news k" "0 \<le> k"
        "printed w2 = printed w1" "files w2 = files w1"
        "\<forall>ob \<in> set news. custom_id (wall_id_counter maze) (wall_id_counter maze + k) ob"
        using add_custom_wall_effect [OF ok] by blast
      have "placed maze ex maze' (ex @ [b])"
        unfolding placed_def using False eff by blast
      then show ?thesis
        apply (intro exI [of _ maze'] exI [of _ "ex @ [b]"] exI [of _ w2] exI [of _ attempts])
        using lt eff(3,4) w1 by (simp add: step)
    qed
  qed
qed

text \<open>The maze has grown by custom-wall segments whose ids lie between the old and the new
  counter, and is otherwise unchanged.\<close>

definition grown :: "maze \<Rightarrow> maze \<Rightarrow> bool" where
  "grown maze maze' \<longleftrightarrow>
     (\<exists>news k. maze' = extended maze news k \<and> 0 \<le> k
        \<and> (\<forall>ob \<in> set news. custom_id (wall_id_counter maze) (wall_id_counter maze + k) ob))"

lemma grown_refl: "grown maze maze"
  unfolding grown_def by (intro exI [of _ "[]"] exI [of _ 0]) (simp add: extended_def)

lemma grown_trans:
  assumes "grown a b" and "grown b c"
  shows "grown a c"
proof -
  obtain n1 k1 where 1: "b = extended a n1 k1" "0 \<le> k1"
      "\<forall>ob \<in> set n1. custom_id (wall_id_counter a) (wall_id_counter a + k1) ob"
    using assms(1) unfolding grown_def by blast
  obtain n2 k2 where 2: "c = extended b n2 k2" "0 \<le> k2"
      "\<forall>ob \<in> set n2. custom_id (wall_id_counter b) (wall_id_counter b + k2) ob"
    using assms(2) unfolding grown_def by blast
  have c: "c = extended a (n1 @ n2) (k1 + k2)"
    by (simp add: 1(1) 2(1) extended_extended)
  have "\<forall>ob \<in> set (n1 @ n2). custom_id (wall_id_counter a) (wall_id_counter a + (k1 + k2)) ob"
  proof
    fix ob assume "ob \<in> set (n1 @ n2)"
    then consider "ob \<in> set n1" | "ob \<in> set n2" by auto
    then show "custom_id (wall_id_counter a) (wall_id_counter a + (k1 + k2)) ob"
    proof cases
      case 1
      then have "custom_id (wall_id_counter a) (wall_id_counter a + k1) ob"
        using \<open>\<forall>ob \<in> set n1. custom_id (wall_id_counter a) (wall_id_counter a + k1) ob\<close> by blast
      then show ?thesis by (rule custom_id_mono) (use \<open>0 \<le> k2\<close> in simp_all)
    next
      case 2
      then have "custom_id (wall_id_counter b) (wall_id_counter b + k2) ob"
        using \<open>\<forall>ob \<in> set n2. custom_id (wall_id_counter b) (wall_id_counter b + k2) ob\<close> by blast
      then show ?thesis
        by (rule custom_id_mono) (use \<open>0 \<le> k1\<close> \<open>b = extended a n1 k1\<close> in simp_all)
    qed
  qed
  then show ?thesis unfolding grown_def using c 1(2) 2(2) by (intro exI [of _ "n1 @ n2"] exI [of _ "k1 + k2"]) simp
qed

lemma placed_grown: "placed maze ex maze' ex' \<Longrightarrow> grown maze maze'"
  unfolding placed_def grown_def by blast

text \<open>The line printed for a wall that could not be placed.\<close>

definition fail_msg :: string where
  "fail_msg = ''Failed to place wall after '' @ str_nat max_attempts @ '' attempts.''"


lemma walls_loop_result:
  "\<exists>maze' ex' w'. walls_loop R idx (maze, ex, w) = Inr (maze', ex', w')
      \<and> length ex \<le> length ex' \<and> length ex' \<le> length ex + length idx
      \<and> printed w' = printed w @ replicate (length ex + length idx - length ex') fail_msg
      \<and> files w' = files w
      \<and> (each_tested ex \<longrightarrow> each_tested ex')
      \<and> grown maze maze'"
proof (induction idx arbitrary: maze ex w)
  case Nil
  show ?case by (simp add: grown_refl)
next
  case (Cons i idx)
  obtain m1 ex1 w1 a where pw: "place_wall R maze ex w 0 = Inr (m1, ex1, w1, a)"
      "printed w1 = printed w" "files w1 = files w" "a \<le> max_attempts"
      "if a = max_attempts then m1 = maze \<and> ex1 = ex else placed maze ex m1 ex1"
    using place_wall_cases [of 0 R maze ex w] by auto
  define v where "v = (if a = max_attempts then print fail_msg w1 else w1)"
  obtain maze' ex' w' where ih: "walls_loop R idx (m1, ex1, v) = Inr (maze', ex', w')"
      "length ex1 \<le> length ex'" "length ex' \<le> length ex1 + length idx"
      "printed w' = printed v @ replicate (length ex1 + length idx - length ex') fail_msg"
      "files w' = files v" "each_tested ex1 \<longrightarrow> each_tested ex'" "grown m1 maze'"
    using Cons.IH [of m1 ex1 v] by blast
  have step: "walls_loop R (i # idx) (maze, ex, w) = Inr (maze', ex', w')"
    using pw(1) ih(1) by (cases "a = max_attempts") (simp_all add: v_def fail_msg_def)
  show ?case
  proof (cases "a = max_attempts")
    case True
    then have same: "m1 = maze" "ex1 = ex" using pw(5) by simp_all
    have pv: "printed v = printed w @ [fail_msg]" "files v = files w"
      using True pw(2,3) by (simp_all add: v_def print_def)
    have "printed w' = printed w @ replicate (length ex + length (i # idx) - length ex') fail_msg"
      using ih(2,3,4) unfolding same pv
      by (simp add: Suc_diff_le replicate_append_same)
    then show ?thesis
      apply (intro exI [of _ maze'] exI [of _ ex'] exI [of _ w'])
      using step ih pv(2) unfolding same by simp
  next
    case False
    then have pl: "placed maze ex m1 ex1" using pw(5) by simp
    then obtain b where b: "ex1 = ex @ [b]" "\<not> check_collision b ex"
      unfolding placed_def by blast
    have pv: "printed v = printed w" "files v = files w"
      using False pw(2,3) by (simp_all add: v_def)
    have pr: "printed w' = printed w @ replicate (length ex + length (i # idx) - length ex') fail_msg"
      using ih(2,3,4) unfolding b pv by simp
    have et: "each_tested ex \<longrightarrow> each_tested ex'"
      using ih(6) b each_tested_snoc by blast
    have gr: "grown maze maze'"
      using placed_grown [OF pl] ih(7) by (rule grown_trans)
    show ?thesis
      apply (intro exI [of _ maze'] exI [of _ ex'] exI [of _ w'])
      using step ih(2,3,5) pr et gr pv(2) unfolding b by simp
  qed
qed

lemma generate_random_walls_result:
  "\<exists>maze' ex w'. generate_random_walls R maze num_walls w = Inr (maze', ex, w')
      \<and> length ex \<le> nat num_walls
      \<and> printed w' = printed w @ replicate (nat num_walls - length ex) fail_msg
                        @ [str_int num_walls @ '' random walls added without collisions.'']
      \<and> files w' = files w
      \<and> each_tested ex
      \<and> grown maze maze'"
proof -
  obtain maze' ex w' where l: "walls_loop R (py_range num_walls) (maze, [], w) = Inr (maze', ex, w')"
      "length ex \<le> length ([] :: footprint list) + length (py_range num_walls)"
      "printed w' = printed w @ replicate (length ([] :: footprint list) + length (py_range num_walls) - length ex) fail_msg"
      "files w' = files w" "each_tested [] \<longrightarrow> each_tested ex" "grown maze maze'"
    using walls_loop_result [of R "py_range num_walls" maze "[]" w] by blast
  show ?thesis
    apply (intro exI [of _ maze'] exI [of _ ex]
        exI [of _ "print (str_int num_walls @ '' random walls added without collisions.'') w'"])
    using l by (simp add: generate_random_walls_def print_def)
qed

lemma place_wall_commit:
  assumes "place_wall R m ex v a = Inr (m1, ex1, v1, a1)"
  shows "ex1 = ex \<or> (\<exists>b. ex1 = ex @ [b] \<and> \<not> check_collision b ex)"
proof (cases "a \<le> max_attempts")
  case True
  obtain m2 ex2 v2 a2 where r: "place_wall R m ex v a = Inr (m2, ex2, v2, a2)"
      "if a2 = max_attempts then m2 = m \<and> ex2 = ex else placed m ex m2 ex2"
    using place_wall_cases [OF True, of R m ex v] by blast
  have "ex2 = ex1" using r(1) assms by simp
  then show ?thesis using r(2) unfolding placed_def by (cases "a2 = max_attempts") auto
next
  case False
  then have "place_wall R m ex v a = Inr (m, ex, v, a)"
    by (subst place_wall.simps) simp
  then show ?thesis using assms by simp
qed

text \<open>
  C2. Let a run of \<open>generate_random_walls\<close> end with the list \<open>existing_walls\<close> of the
  footprints of the walls it committed. Every footprint of the list does not collide with
  the footprints before it, and no two footprints of the list collide, in either order of
  the two arguments of the test. In the placement loop a footprint is appended, and its
  wall committed, only when \<open>check_collision\<close> against the whole list accepted so far is
  false.
\<close>

theorem committed_footprints_disjoint:
  assumes "generate_random_walls R maze num_walls w = Inr (maze', existing_walls, w')"
  shows "(\<forall>j < length existing_walls.
            \<not> check_collision (existing_walls ! j) (take j existing_walls))
       \<and> (\<forall>i < length existing_walls. \<forall>j < length existing_walls.
            i \<noteq> j \<longrightarrow> \<not> check_collision (existing_walls ! i) [existing_walls ! j])
       \<and> (\<forall>m ex v a m1 ex1 v1 a1. place_wall R m ex v a = Inr (m1, ex1, v1, a1) \<longrightarrow>
            ex1 = ex \<or> (\<exists>b. ex1 = ex @ [b] \<and> \<not> check_collision b ex))"
proof -
  obtain m2 ex2 w2 where r: "generate_random_walls R maze num_walls w = Inr (m2, ex2, w2)"
      "each_tested ex2"
    using generate_random_walls_result [of R maze num_walls w] by blast
  have et: "each_tested existing_walls" using r assms by simp
  have 1: "\<forall>j < length existing_walls.
            \<not> check_collision (existing_walls ! j) (take j existing_walls)"
    using et by (simp add: each_tested_def)
  have 2: "\<forall>i < length existing_walls. \<forall>j < length existing_walls.
            i \<noteq> j \<longrightarrow> \<not> check_collision (existing_walls ! i) [existing_walls ! j]"
    using each_tested_pairwise [OF et] by blast
  have 3: "\<forall>m ex v a m1 ex1 v1 a1. place_wall R m ex v a = Inr (m1, ex1, v1, a1) \<longrightarrow>
            ex1 = ex \<or> (\<exists>b. ex1 = ex @ [b] \<and> \<not> check_collision b ex)"
    using place_wall_commit by blast
  show ?thesis using 1 2 3 by blast
qed

lemma three_walls_run:
  "\<exists>m w. generate_random_walls gen_count maze0 3 (world0 0)
            = Inr (m, [(0, 1, 3, 2), (2, 3, 7, 4), (4, 5, 11, 6)], w)"
  by (simp add: eval_defs place_wall.simps [of _ _ _ _ 0] upt_rec)

theorem committed_footprints_disjoint_witness:
  "(\<exists>m w. generate_random_walls gen_count maze0 3 (world0 0)
            = Inr (m, [(0, 1, 3, 2), (2, 3, 7, 4), (4, 5, 11, 6)], w))
   \<and> \<not> check_collision (0, 1, 3, 2) [(2, 3, 7, 4)]
   \<and> \<not> check_collision (2, 3, 7, 4) [(4, 5, 11, 6)]
   \<and> \<not> check_collision (4, 5, 11, 6) [(0, 1, 3, 2)]"
proof -
  obtain m w where r: "generate_random_walls gen_count maze0 3 (world0 0)
            = Inr (m, [(0, 1, 3, 2), (2, 3, 7, 4), (4, 5, 11, 6)], w)"
    using three_walls_run by blast
  let ?ws = "[(0, 1, 3, 2), (2, 3, 7, 4), (4, 5, 11, 6)] :: footprint list"
  have p: "\<forall>i < length ?ws. \<forall>j < length ?ws. i \<noteq> j \<longrightarrow> \<not> check_collision (?ws ! i) [?ws ! j]"
    using committed_footprints_disjoint [OF r] by blast
  have "\<not> check_collision (?ws ! 0) [?ws ! 1]" using p by force
  moreover have "\<not> check_collision (?ws ! 1) [?ws ! 2]" using p by force
  moreover have "\<not> check_collision (?ws ! 2) [?ws ! 0]" using p by force
  ultimately show ?thesis using r by simp
qed

subsection \<open>Generation never raises (C4)\<close>






subsection \<open>Reading a wall id back from a name\<close>

text \<open>The value of a decimal digit, and of a string of digits.\<close>

definition digit_val :: "char \<Rightarrow> nat" where
  "digit_val c = of_char c - 48"

definition nat_of_str :: "string \<Rightarrow> nat" where
  "nat_of_str s = foldl (\<lambda>acc c. 10 * acc + digit_val c) 0 s"

text \<open>The number that a name ends with: the digits after its last underscore.\<close>

definition numeric_suffix :: "string \<Rightarrow> nat" where
  "numeric_suffix nm = nat_of_str (rev (takeWhile (\<lambda>c. c \<noteq> CHR ''_'') (rev nm)))"

lemma digit_cases:
  assumes "d < (10::nat)"
  shows "d = 0 \<or> d = 1 \<or> d = 2 \<or> d = 3 \<or> d = 4 \<or> d = 5 \<or> d = 6 \<or> d = 7 \<or> d = 8 \<or> d = 9"
  using assms by arith

lemma digit_val_digit_char:
  assumes "d < 10"
  shows "digit_val (digit_char d) = d"
  using digit_cases [OF assms] by (auto simp: digit_val_def digit_char_def)

lemma digit_char_plain:
  assumes "d < 10"
  shows "digit_char d \<noteq> CHR ''_'' \<and> digit_char d \<noteq> CHR ''-''"
  using digit_cases [OF assms] by (auto simp: digit_char_def)

lemma nat_of_str_snoc: "nat_of_str (s @ [c]) = 10 * nat_of_str s + digit_val c"
  by (simp add: nat_of_str_def)

lemma nat_of_str_str_nat: "nat_of_str (str_nat n) = n"
proof (induction n rule: str_nat.induct)
  case (1 n)
  show ?case
  proof (cases "n < 10")
    case True
    then show ?thesis
      by (subst str_nat.simps) (simp add: nat_of_str_def digit_val_digit_char)
  next
    case False
    have "nat_of_str (str_nat n) = 10 * nat_of_str (str_nat (n div 10)) + digit_val (digit_char (n mod 10))"
      using False by (subst str_nat.simps) (simp add: nat_of_str_snoc)
    also have "\<dots> = 10 * (n div 10) + n mod 10"
      using "1.IH" [OF False] by (simp add: digit_val_digit_char)
    finally show ?thesis by simp
  qed
qed

lemma str_nat_chars: "c \<in> set (str_nat n) \<Longrightarrow> c \<noteq> CHR ''_'' \<and> c \<noteq> CHR ''-''"
proof (induction n rule: str_nat.induct)
  case (1 n)
  show ?case
  proof (cases "n < 10")
    case True
    then have "str_nat n = [digit_char n]" by (subst str_nat.simps) simp
    then show ?thesis using "1.prems" digit_char_plain [OF True] by simp
  next
    case False
    have s: "str_nat n = str_nat (n div 10) @ [digit_char (n mod 10)]"
      using False by (subst str_nat.simps) simp
    have "n mod 10 < 10" by simp
    then show ?thesis
      using "1.prems" "1.IH" [OF False] digit_char_plain [of "n mod 10"] unfolding s by auto
  qed
qed

lemma str_nat_not_Nil: "str_nat n \<noteq> []"
  by (subst str_nat.simps) simp

lemma str_nat_inj: "str_nat a = str_nat b \<Longrightarrow> a = b"
  by (metis nat_of_str_str_nat)

lemma str_int_chars: "c \<in> set (str_int i) \<Longrightarrow> c \<noteq> CHR ''_''"
  using str_nat_chars by (auto simp: str_int_def split: if_splits)

lemma str_int_inj:
  assumes "str_int a = str_int b"
  shows "a = b"
proof -
  have hd_digit: "hd (str_nat n) \<noteq> CHR ''-''" for n
    using str_nat_chars [of "hd (str_nat n)" n] str_nat_not_Nil [of n] by simp
  consider (nn) "a < 0" "b < 0" | (np) "a < 0" "\<not> b < 0" | (pn) "\<not> a < 0" "b < 0"
    | (pp) "\<not> a < 0" "\<not> b < 0"
    by blast
  then show ?thesis
  proof cases
    case nn
    then have "str_nat (nat (- a)) = str_nat (nat (- b))" using assms by (simp add: str_int_def)
    then have "nat (- a) = nat (- b)" by (rule str_nat_inj)
    then show ?thesis using nn by simp
  next
    case np
    then have "CHR ''-'' # str_nat (nat (- a)) = str_nat (nat b)"
      using assms by (simp add: str_int_def)
    then have "hd (str_nat (nat b)) = CHR ''-''" by (metis list.sel(1))
    then show ?thesis using hd_digit by blast
  next
    case pn
    then have "str_nat (nat a) = CHR ''-'' # str_nat (nat (- b))"
      using assms by (simp add: str_int_def)
    then have "hd (str_nat (nat a)) = CHR ''-''" by (metis list.sel(1))
    then show ?thesis using hd_digit by blast
  next
    case pp
    then have "str_nat (nat a) = str_nat (nat b)" using assms by (simp add: str_int_def)
    then have "nat a = nat b" by (rule str_nat_inj)
    then show ?thesis using pp by simp
  qed
qed

lemma takeWhile_delimiter:
  "c \<notin> set xs \<Longrightarrow> takeWhile (\<lambda>x. x \<noteq> c) (xs @ c # r) = xs"
  by (induction xs) auto

lemma delimited_unique:
  assumes "xs @ c # r = ys @ c # r'" and "c \<notin> set xs" and "c \<notin> set ys"
  shows "xs = ys"
proof -
  have "takeWhile (\<lambda>x. x \<noteq> c) (xs @ c # r) = xs"
    using assms(2) by (rule takeWhile_delimiter)
  moreover have "takeWhile (\<lambda>x. x \<noteq> c) (ys @ c # r') = ys"
    using assms(3) by (rule takeWhile_delimiter)
  ultimately show ?thesis using assms(1) by simp
qed

lemma wall_id_unique:
  assumes "''custom_wall_'' @ str_int a @ ''_'' @ r = ''custom_wall_'' @ str_int b @ ''_'' @ r'"
  shows "a = b"
proof -
  have e: "str_int a @ CHR ''_'' # r = str_int b @ CHR ''_'' # r'"
    using assms by simp
  have na: "CHR ''_'' \<notin> set (str_int a)" using str_int_chars by blast
  have nb: "CHR ''_'' \<notin> set (str_int b)" using str_int_chars by blast
  have "str_int a = str_int b"
    using e na nb by (rule delimited_unique)
  then show ?thesis by (rule str_int_inj)
qed


subsection \<open>Saving and loading\<close>

text \<open>
  \<open>renamed ob ob'\<close>: \<open>ob'\<close> is \<open>ob\<close> as \<open>from_dict\<close> rebuilds it from \<open>to_dict ob\<close>: a rounded
  box with the same size, colour and position, and the name of \<open>ob\<close> followed by an
  underscore and a new random integer.
\<close>

definition renamed :: "obstacle \<Rightarrow> obstacle \<Rightarrow> bool" where
  "renamed ob ob' \<longleftrightarrow>
     (\<exists>uid. ob' = ob\<lparr>name := name ob @ ''_'' @ str_int uid, shape_type := ssBox\<rparr>)"

lemma maze_data_of_fields [simp]:
  "j_size (maze_data_of rb m) = Some (size_m m)"
  "j_scale (maze_data_of rb m) = Some (scale m)"
  "j_wall_height (maze_data_of rb m) = Some (wall_height m)"
  "j_wall_length (maze_data_of rb m) = Some (wall_length m)"
  "j_maze_size (maze_data_of rb m) = Some (maze_size m)"
  "j_center_position (maze_data_of rb m) = Some (center_position m)"
  "j_wall_id_counter (maze_data_of rb m) = Some (wall_id_counter m)"
  "j_obstacles (maze_data_of rb m) = Some (map to_dict (obstacles m))"
  "j_custom_walls (maze_data_of rb m) = Some (map (\<lambda>(k, wall). to_dict wall) (custom_walls m))"
  by (cases rb; simp add: maze_data_of_def)+

lemma split_last_ssBox: "split_last ''ST.ssBox'' = ''ssBox''"
  by (simp add: split_last_def)

lemma from_dict_to_dict:
  assumes "from_dict R cfg (to_dict ob) w = Inr (ob', cfg', w')"
  shows "renamed ob ob' \<and> printed w' = printed w \<and> files w' = files w"
proof -
  have sh: "shape_type_mapping (split_last (str_ST (shape_type ob))) = Some ssBox"
    using assms
    by (auto simp: from_dict_def to_dict_def shape_type_mapping_eq split: option.splits if_splits)
  have "Obstacle R cfg (name ob) ssBox (size_o ob) (color ob) (position ob) w = (ob', cfg', w')"
    using assms sh by (simp add: from_dict_def to_dict_def)
  then show ?thesis
    unfolding renamed_def Obstacle_eq Let_def
    by (intro conjI exI [of _ "fst (randint R 1000 9999 (rand_state w))"]) auto
qed

lemma from_dict_to_dict_ok:
  assumes "shape_type ob = ssBox"
  shows "\<exists>ob' cfg' w'. from_dict R cfg (to_dict ob) w = Inr (ob', cfg', w')"
  using assms
  by (simp add: from_dict_def to_dict_def split_last_ssBox shape_type_mapping_eq prod_eq_iff)

lemma load_obstacles_to_dict:
  assumes "load_obstacles R (map to_dict obs) self w = Inr (self', w')"
  shows "\<exists>obs'. obstacles self' = obstacles self @ obs' \<and> list_all2 renamed obs obs'
           \<and> wall_id_counter self' = wall_id_counter self
           \<and> custom_walls self' = custom_walls self
           \<and> printed w' = printed w \<and> files w' = files w"
  using assms
proof (induction obs arbitrary: self w)
  case Nil
  then show ?case by simp
next
  case (Cons ob obs)
  obtain ob1 cfg1 w1 where f: "from_dict R (config self) (to_dict ob) w = Inr (ob1, cfg1, w1)"
    using Cons.prems by (auto split: sum.splits)
  have r: "renamed ob ob1" "printed w1 = printed w" "files w1 = files w"
    using from_dict_to_dict [OF f] by simp_all
  let ?s1 = "self\<lparr>config := cfg1, obstacles := obstacles self @ [ob1]\<rparr>"
  have "load_obstacles R (map to_dict obs) ?s1 w1 = Inr (self', w')"
    using Cons.prems f by simp
  from Cons.IH [OF this] obtain obs' where ih:
    "obstacles self' = obstacles ?s1 @ obs'" "list_all2 renamed obs obs'"
    "wall_id_counter self' = wall_id_counter ?s1" "custom_walls self' = custom_walls ?s1"
    "printed w' = printed w1" "files w' = files w1"
    by blast
  show ?case
    apply (rule exI [of _ "ob1 # obs'"])
    using ih r by simp
qed

lemma load_obstacles_to_dict_ok:
  assumes "\<forall>ob \<in> set obs. shape_type ob = ssBox"
  shows "\<exists>self' w'. load_obstacles R (map to_dict obs) self w = Inr (self', w')"
  using assms
proof (induction obs arbitrary: self w)
  case Nil
  then show ?case by simp
next
  case (Cons ob obs)
  have "shape_type ob = ssBox" using Cons.prems by simp
  then obtain ob1 cfg1 w1 where f: "from_dict R (config self) (to_dict ob) w = Inr (ob1, cfg1, w1)"
    using from_dict_to_dict_ok by blast
  show ?case
    using Cons.IH [of "self\<lparr>config := cfg1, obstacles := obstacles self @ [ob1]\<rparr>" w1] Cons.prems
    by (simp add: f)
qed

lemma load_custom_walls_frame:
  assumes "load_custom_walls R records self w = Inr (self', w')"
  shows "obstacles self' = obstacles self \<and> wall_id_counter self' = wall_id_counter self
           \<and> (records = [] \<longrightarrow> custom_walls self' = custom_walls self)"
  using assms
proof (induction records arbitrary: self w)
  case Nil
  then show ?case by simp
next
  case (Cons data records)
  obtain wall cfg1 w1 where f: "from_dict R (config self) data w = Inr (wall, cfg1, w1)"
    using Cons.prems by (auto split: sum.splits)
  let ?s1 = "self\<lparr>config := cfg1,
                   custom_walls := AList.update (name wall) wall (custom_walls self)\<rparr>"
  have "load_custom_walls R records ?s1 w1 = Inr (self', w')"
    using Cons.prems f by simp
  from Cons.IH [OF this] show ?case by simp
qed

lemma load_custom_walls_to_dict_ok:
  assumes "\<forall>ob \<in> set obs. shape_type ob = ssBox"
  shows "\<exists>self' w'. load_custom_walls R (map to_dict obs) self w = Inr (self', w')"
  using assms
proof (induction obs arbitrary: self w)
  case Nil
  then show ?case by simp
next
  case (Cons ob obs)
  have "shape_type ob = ssBox" using Cons.prems by simp
  then obtain ob1 cfg1 w1 where f: "from_dict R (config self) (to_dict ob) w = Inr (ob1, cfg1, w1)"
    using from_dict_to_dict_ok by blast
  show ?case
    using Cons.IH [of "self\<lparr>config := cfg1,
        custom_walls := AList.update (name ob1) ob1 (custom_walls self)\<rparr>" w1] Cons.prems
    by (simp add: f)
qed

text \<open>Loading the document of a maze \<open>m\<close>: the counter of \<open>m\<close>, the obstacles of \<open>m\<close> renamed.\<close>

lemma load_saved:
  assumes "files w p = Some (maze_data_of rb m)"
    and "load_maze R p self w = Inr (m', w')"
  shows "wall_id_counter m' = wall_id_counter m \<and> list_all2 renamed (obstacles m) (obstacles m')
           \<and> (custom_walls m = [] \<longrightarrow> custom_walls m' = [])"
proof -
  let ?self1 = "self\<lparr>size_m := size_m m, scale := scale m, wall_height := wall_height m,
                     wall_length := wall_length m, maze_size := maze_size m,
                     center_position := center_position m,
                     wall_id_counter := wall_id_counter m, config := [], obstacles := []\<rparr>"
  obtain self2 w2 where l2: "load_obstacles R (map to_dict (obstacles m)) ?self1 w = Inr (self2, w2)"
    using assms by (auto simp: load_maze_def split: sum.splits)
  obtain self3 w3 where l3:
    "load_custom_walls R (map (\<lambda>(k, wall). to_dict wall) (custom_walls m))
       (self2\<lparr>custom_walls := []\<rparr>) w2 = Inr (self3, w3)"
    using assms l2 by (auto simp: load_maze_def split: sum.splits)
  have m': "m' = self3"
    using assms l2 l3 by (simp add: load_maze_def)
  obtain obs' where o: "obstacles self2 = obstacles ?self1 @ obs'"
      "list_all2 renamed (obstacles m) obs'" "wall_id_counter self2 = wall_id_counter ?self1"
    using load_obstacles_to_dict [OF l2] by blast
  have f: "obstacles self3 = obstacles (self2\<lparr>custom_walls := []\<rparr>)"
      "wall_id_counter self3 = wall_id_counter (self2\<lparr>custom_walls := []\<rparr>)"
      "map (\<lambda>(k, wall). to_dict wall) (custom_walls m) = [] \<longrightarrow>
         custom_walls self3 = custom_walls (self2\<lparr>custom_walls := []\<rparr>)"
    using load_custom_walls_frame [OF l3] by simp_all
  show ?thesis
    unfolding m' using o f by simp
qed

lemma load_saved_ok:
  assumes "files w p = Some (maze_data_of rb m)"
    and "\<forall>ob \<in> set (obstacles m). shape_type ob = ssBox"
    and "\<forall>kw \<in> set (custom_walls m). shape_type (snd kw) = ssBox"
  shows "\<exists>m' w'. load_maze R p self w = Inr (m', w')"
proof -
  let ?self1 = "self\<lparr>size_m := size_m m, scale := scale m, wall_height := wall_height m,
                     wall_length := wall_length m, maze_size := maze_size m,
                     center_position := center_position m,
                     wall_id_counter := wall_id_counter m, config := [], obstacles := []\<rparr>"
  obtain self2 w2 where l2: "load_obstacles R (map to_dict (obstacles m)) ?self1 w = Inr (self2, w2)"
    using load_obstacles_to_dict_ok [OF assms(2)] by blast
  have c: "map (\<lambda>(k, wall). to_dict wall) (custom_walls m) = map to_dict (map snd (custom_walls m))"
    by (simp add: split_beta)
  have "\<forall>ob \<in> set (map snd (custom_walls m)). shape_type ob = ssBox"
    using assms(3) by simp
  then obtain self3 w3 where l3:
    "load_custom_walls R (map (\<lambda>(k, wall). to_dict wall) (custom_walls m))
       (self2\<lparr>custom_walls := []\<rparr>) w2 = Inr (self3, w3)"
    unfolding c using load_custom_walls_to_dict_ok by blast
  show ?thesis
    using assms(1) l2 l3 by (simp add: load_maze_def)
qed

lemma files_save_maze [simp]: "files (save_maze p rb m w) p = Some (maze_data_of rb m)"
  by (simp add: save_maze_def print_def)


subsection \<open>Round trip of the obstacle list (C1)\<close>

text \<open>
  C1. The specification asks that saving and loading give back the obstacle list with the
  same names. The code gives back a list of the same length with the same shapes, sizes,
  colours and positions, but \<open>from_dict\<close> passes the saved name to the constructor, which
  appends an underscore and a new random integer: every name after the load is the saved
  name with one more suffix, and differs from the saved name. The theorem states what the
  code does, for a maze whose obstacles are rounded boxes (all that \<open>Maze\<close> creates).
\<close>

theorem save_load_renames_obstacles:
  assumes "\<forall>ob \<in> set (obstacles m). shape_type ob = ssBox"
    and "\<forall>kw \<in> set (custom_walls m). shape_type (snd kw) = ssBox"
  shows "\<exists>m' w'. load_maze R p self (save_maze p rb m w) = Inr (m', w')
     \<and> length (obstacles m') = length (obstacles m)
     \<and> (\<forall>i < length (obstacles m).
          shape_type (obstacles m' ! i) = shape_type (obstacles m ! i)
          \<and> size_o (obstacles m' ! i) = size_o (obstacles m ! i)
          \<and> color (obstacles m' ! i) = color (obstacles m ! i)
          \<and> position (obstacles m' ! i) = position (obstacles m ! i)
          \<and> (\<exists>uid. name (obstacles m' ! i) = name (obstacles m ! i) @ ''_'' @ str_int uid)
          \<and> name (obstacles m' ! i) \<noteq> name (obstacles m ! i))"
proof -
  obtain m' w' where l: "load_maze R p self (save_maze p rb m w) = Inr (m', w')"
    using load_saved_ok [OF files_save_maze assms] by blast
  have r: "list_all2 renamed (obstacles m) (obstacles m')"
    using load_saved [OF files_save_maze l] by simp
  have len: "length (obstacles m') = length (obstacles m)"
    using r by (simp add: list_all2_lengthD)
  have each: "shape_type (obstacles m' ! i) = shape_type (obstacles m ! i)
          \<and> size_o (obstacles m' ! i) = size_o (obstacles m ! i)
          \<and> color (obstacles m' ! i) = color (obstacles m ! i)
          \<and> position (obstacles m' ! i) = position (obstacles m ! i)
          \<and> (\<exists>uid. name (obstacles m' ! i) = name (obstacles m ! i) @ ''_'' @ str_int uid)
          \<and> name (obstacles m' ! i) \<noteq> name (obstacles m ! i)"
    if i: "i < length (obstacles m)" for i
  proof -
    have "renamed (obstacles m ! i) (obstacles m' ! i)"
      using r i by (rule list_all2_nthD)
    then obtain uid where u: "obstacles m' ! i
        = (obstacles m ! i)\<lparr>name := name (obstacles m ! i) @ ''_'' @ str_int uid,
                             shape_type := ssBox\<rparr>"
      unfolding renamed_def by blast
    have s: "shape_type (obstacles m ! i) = ssBox"
      using assms(1) i by simp
    have n: "name (obstacles m' ! i) = name (obstacles m ! i) @ ''_'' @ str_int uid"
      by (simp add: u)
    have "name (obstacles m' ! i) \<noteq> name (obstacles m ! i)"
      unfolding n by simp
    then show ?thesis using s n by (auto simp: u)
  qed
  show ?thesis
    apply (intro exI [of _ m'] exI [of _ w'])
    using l len each by blast
qed

subsection \<open>A maze built, saved and loaded\<close>

text \<open>
  The example of C1 and C5: a maze of grid size 1 from the constructor, one custom wall of
  one segment added, the maze saved and loaded again, all with the constant generator.
\<close>

definition built1 :: "maze \<times> unit world" where
  "built1 = projr (Maze gen_const [] 1 (1 / 3) 1 1 20 [0, 0] (world0 ()))"

definition built2 :: "maze \<times> unit world" where
  "built2 = projr (add_custom_wall gen_const [0, 0] ''horizontal'' 1 (fst built1) (snd built1))"

definition loaded2 :: "maze \<times> unit world" where
  "loaded2 = projr (load_maze gen_const ''maze_1.json'' (fst built2)
                      (save_maze ''maze_1.json'' None (fst built2) (snd built2)))"

lemma Maze_facts:
  assumes "Maze R cfg g sc wh wl floor_size center w = Inr (m, w')"
  shows "wall_id_counter m = 1 + 4 * int (nat (g + 2)) \<and> custom_walls m = []
       \<and> wall_length m = wl \<and> wall_height m = wh
       \<and> (\<forall>ob \<in> set (obstacles m). plain ob \<and> shape_type ob = ssBox)"
proof -
  define self where "self = \<lparr>config = cfg, obstacles = [], size_m = g, scale = sc,
       wall_height = wh, wall_length = wl, maze_size = of_int g * wl, center_position = center,
       custom_walls = [], wall_id_counter = 1, goal_object = None, final_object = None\<rparr>"
  obtain cx cy where c: "center = [cx, cy]"
    using assms
    by (auto simp: Maze_def create_floor_def Let_def split: list.splits sum.splits)
  obtain fl w1 where fl: "create_floor R self w = Inr (extended self [fl] 0, w1)"
      "plain fl" "shape_type fl = ssBox"
    using create_floor_extended [of self cx cy R w] c by (auto simp: self_def)
  let ?s1 = "extended self [fl] 0"
  obtain walls w2 where cm:
    "create_maze R ?s1 w1 = (extended ?s1 walls (4 * int (nat (size_m ?s1 + 2))), w2)"
    "\<forall>ob \<in> set walls.
        perimeter_wall [wall_length ?s1, wall_length ?s1, wall_height ?s1, 0.1] ob"
    using create_maze_extended [of R ?s1 w1] by blast
  have "Maze R cfg g sc wh wl floor_size center w
             = Inr (extended ?s1 walls (4 * int (nat (size_m ?s1 + 2))), w2)"
    unfolding Maze_def Let_def self_def [symmetric] by (simp add: fl(1) cm(1))
  then have m: "m = extended ?s1 walls (4 * int (nat (size_m ?s1 + 2)))"
    using assms by simp
  show ?thesis
    unfolding m using fl(2,3) cm(2) by (auto simp: self_def perimeter_wall_def)
qed

lemma Maze_succeeds:
  assumes "center = [cx, cy]"
  shows "\<exists>m w'. Maze R cfg g sc wh wl floor_size center w = Inr (m, w')"
proof -
  define self where "self = \<lparr>config = cfg, obstacles = [], size_m = g, scale = sc,
       wall_height = wh, wall_length = wl, maze_size = of_int g * wl, center_position = center,
       custom_walls = [], wall_id_counter = 1, goal_object = None, final_object = None\<rparr>"
  obtain fl w1 where fl: "create_floor R self w = Inr (extended self [fl] 0, w1)"
    using create_floor_extended [of self cx cy R w] assms by (auto simp: self_def)
  obtain m w' where "create_maze R (extended self [fl] 0) w1 = (m, w')"
    by (cases "create_maze R (extended self [fl] 0) w1") auto
  then have "Maze R cfg g sc wh wl floor_size center w = Inr (m, w')"
    unfolding Maze_def Let_def self_def [symmetric] by (simp add: fl)
  then show ?thesis by blast
qed

lemma built1_eq: "Maze gen_const [] 1 (1 / 3) 1 1 20 [0, 0] (world0 ()) = Inr built1"
proof -
  obtain m w' where "Maze gen_const [] 1 (1 / 3) 1 1 20 [0, 0] (world0 ()) = Inr (m, w')"
    using Maze_succeeds [of "[0, 0]" 0 0 gen_const "[]" 1 "1 / 3" 1 1 20 "world0 ()"] by blast
  then show ?thesis by (simp add: built1_def)
qed

lemma built1_facts:
  "wall_id_counter (fst built1) = 13" "custom_walls (fst built1) = []"
  "wall_length (fst built1) = 1" "wall_height (fst built1) = 1"
  "\<forall>ob \<in> set (obstacles (fst built1)). plain ob \<and> shape_type ob = ssBox"
  using Maze_facts [of gen_const "[]" 1 "1 / 3" 1 1 20 "[0, 0]" "world0 ()" "fst built1"
      "snd built1"] built1_eq
  by simp_all

definition wall13 :: obstacle where
  "wall13 = \<lparr>name = ''custom_wall_13_1000'', shape_type = ssBox, size_o = [1, 1, 1, 0.1],
             color = [0.25, 0.25, 0.25], position = [0, 0, 0.5]\<rparr>"

lemma built2_eq:
  "add_custom_wall gen_const [0, 0] ''horizontal'' 1 (fst built1) (snd built1) = Inr built2"
  "fst built2 = extended (fst built1) [wall13] 2"
proof -
  obtain m1 w1 where p: "built1 = (m1, w1)" by (cases built1) auto
  have f: "wall_id_counter m1 = 13" "wall_length m1 = 1" "wall_height m1 = 1"
    using built1_facts(1,3,4) by (simp_all add: p)
  have "add_custom_wall gen_const [0, 0] ''horizontal'' 1 m1 w1
          = Inr (extended m1 [wall13] 2, w1)"
    by (simp add: add_custom_wall_def py_range_def upt_rec custom_wall_step_eq f
          wall_named_def wall13_def gen_const_def str_int_def digit_char_def)
  then show "add_custom_wall gen_const [0, 0] ''horizontal'' 1 (fst built1) (snd built1) = Inr built2"
    and "fst built2 = extended (fst built1) [wall13] 2"
    by (simp_all add: built2_def p)
qed

lemma built2_facts:
  "wall_id_counter (fst built2) = 15" "custom_walls (fst built2) = []"
  "last (obstacles (fst built2)) = wall13"
  "\<forall>ob \<in> set (obstacles (fst built2)). shape_type ob = ssBox"
  using built1_facts by (simp_all add: built2_eq(2) wall13_def)

text \<open>With the constant generator, every rebuilt obstacle gets the suffix 1000.\<close>

lemma renamed_gen_const:
  assumes "from_dict gen_const cfg (to_dict ob) w = Inr (ob', cfg', w')"
  shows "name ob' = name ob @ ''_1000''"
proof -
  have sh: "shape_type_mapping (split_last (str_ST (shape_type ob))) = Some ssBox"
    using assms
    by (auto simp: from_dict_def to_dict_def shape_type_mapping_eq split: option.splits if_splits)
  have "Obstacle gen_const cfg (name ob) ssBox (size_o ob) (color ob) (position ob) w
          = (ob', cfg', w')"
    using assms sh by (simp add: from_dict_def to_dict_def)
  then show ?thesis
    by (auto simp: Obstacle_eq Let_def gen_const_def str_int_def digit_char_def)
qed

lemma load_obstacles_gen_const:
  assumes "load_obstacles gen_const (map to_dict obs) self w = Inr (self', w')"
  shows "map name (obstacles self') = map name (obstacles self) @ map (\<lambda>ob. name ob @ ''_1000'') obs"
  using assms
proof (induction obs arbitrary: self w)
  case Nil
  then show ?case by simp
next
  case (Cons ob obs)
  obtain ob1 cfg1 w1 where f: "from_dict gen_const (config self) (to_dict ob) w = Inr (ob1, cfg1, w1)"
    using Cons.prems by (auto split: sum.splits)
  let ?s1 = "self\<lparr>config := cfg1, obstacles := obstacles self @ [ob1]\<rparr>"
  have "load_obstacles gen_const (map to_dict obs) ?s1 w1 = Inr (self', w')"
    using Cons.prems f by simp
  from Cons.IH [OF this] show ?case
    using renamed_gen_const [OF f] by simp
qed

lemma loaded2_eq:
  "load_maze gen_const ''maze_1.json'' (fst built2)
     (save_maze ''maze_1.json'' None (fst built2) (snd built2)) = Inr loaded2"
proof -
  have "\<forall>kw \<in> set (custom_walls (fst built2)). shape_type (snd kw) = ssBox"
    by (simp add: built2_facts)
  then obtain m' w' where "load_maze gen_const ''maze_1.json'' (fst built2)
     (save_maze ''maze_1.json'' None (fst built2) (snd built2)) = Inr (m', w')"
    using load_saved_ok [OF files_save_maze built2_facts(4)] by blast
  then show ?thesis by (simp add: loaded2_def)
qed

lemma loaded2_facts:
  "wall_id_counter (fst loaded2) = 15"
  "name (last (obstacles (fst loaded2))) = ''custom_wall_13_1000_1000''"
proof -
  let ?w = "save_maze ''maze_1.json'' None (fst built2) (snd built2)"
  obtain lm lw where lp: "loaded2 = (lm, lw)" by (cases loaded2) auto
  have l: "load_maze gen_const ''maze_1.json'' (fst built2) ?w = Inr (lm, lw)"
    using loaded2_eq by (simp add: lp)
  have "wall_id_counter lm = 15"
    using load_saved [OF files_save_maze l] built2_facts(1) by simp
  then show "wall_id_counter (fst loaded2) = 15" by (simp add: lp)
  let ?self1 = "(fst built2)\<lparr>size_m := size_m (fst built2), scale := scale (fst built2),
       wall_height := wall_height (fst built2), wall_length := wall_length (fst built2),
       maze_size := maze_size (fst built2), center_position := center_position (fst built2),
       wall_id_counter := wall_id_counter (fst built2), config := [], obstacles := []\<rparr>"
  obtain self2 w2 where l2:
    "load_obstacles gen_const (map to_dict (obstacles (fst built2))) ?self1 ?w = Inr (self2, w2)"
    using l by (auto simp: load_maze_def split: sum.splits)
  have "lm = self2\<lparr>custom_walls := []\<rparr>"
    using l l2 by (simp add: load_maze_def built2_facts(2))
  then have "obstacles lm = obstacles self2" by simp
  then have n: "map name (obstacles lm)
                 = map (\<lambda>ob. name ob @ ''_1000'') (obstacles (fst built2))"
    using load_obstacles_gen_const [OF l2] by simp
  have ne: "obstacles (fst built2) \<noteq> []"
    by (simp add: built2_eq(2))
  then have ne': "obstacles lm \<noteq> []"
    using n by (metis map_is_Nil_conv)
  have "name (last (obstacles lm)) = last (map name (obstacles lm))"
    using ne' by (simp add: last_map)
  also have "\<dots> = name (last (obstacles (fst built2))) @ ''_1000''"
    unfolding n using ne by (simp add: last_map)
  finally have "name (last (obstacles lm)) = ''custom_wall_13_1000_1000''"
    by (simp add: built2_facts(3) wall13_def)
  then show "name (last (obstacles (fst loaded2))) = ''custom_wall_13_1000_1000''"
    by (simp add: lp)
qed

theorem save_load_renames_obstacles_witness:
  "load_maze gen_const ''maze_1.json'' (fst built2)
     (save_maze ''maze_1.json'' None (fst built2) (snd built2)) = Inr loaded2
   \<and> length (obstacles (fst loaded2)) = length (obstacles (fst built2))
   \<and> name (last (obstacles (fst built2))) = ''custom_wall_13_1000''
   \<and> name (last (obstacles (fst loaded2))) = ''custom_wall_13_1000_1000''"
proof -
  have c: "\<forall>kw \<in> set (custom_walls (fst built2)). shape_type (snd kw) = ssBox"
    by (simp add: built2_facts)
  obtain m' w' where r: "load_maze gen_const ''maze_1.json'' (fst built2)
       (save_maze ''maze_1.json'' None (fst built2) (snd built2)) = Inr (m', w')"
      "length (obstacles m') = length (obstacles (fst built2))"
    using save_load_renames_obstacles [OF built2_facts(4) c, of gen_const "''maze_1.json''"
        "fst built2" None "snd built2"] by blast
  have "loaded2 = (m', w')"
    using r(1) loaded2_eq by simp
  then have "m' = fst loaded2" by (rule ssubst) simp
  then show ?thesis
    using r(2) loaded2_eq loaded2_facts(2) built2_facts(3) by (simp add: wall13_def)
qed


subsection \<open>The wall-id counter (C5)\<close>

text \<open>
  The mazes that the program builds: one from the constructor, and from such a maze one
  more by \<open>add_custom_wall\<close>, \<open>generate_random_walls\<close>, \<open>add_goal_object\<close>,
  \<open>add_final_object\<close>, or by loading (into any maze object) the document saved from it.
\<close>

inductive built :: "'s random_module \<Rightarrow> maze \<Rightarrow> bool" for R :: "'s random_module" where
  built_Maze: "Maze R cfg g sc wh wl floor_size center w = Inr (m, w') \<Longrightarrow> built R m"
| built_custom:
    "built R m \<Longrightarrow> add_custom_wall R start_coords direction len m w = Inr (m', w') \<Longrightarrow> built R m'"
| built_random:
    "built R m \<Longrightarrow> generate_random_walls R m num_walls w = Inr (m', ex, w') \<Longrightarrow> built R m'"
| built_goal: "built R m \<Longrightarrow> add_goal_object R coord m w = Inr (m', w') \<Longrightarrow> built R m'"
| built_final: "built R m \<Longrightarrow> add_final_object R coord m w = Inr (m', w') \<Longrightarrow> built R m'"
| built_load:
    "built R m \<Longrightarrow> files w p = Some (maze_data_of rb m) \<Longrightarrow>
     load_maze R p self w = Inr (m', w') \<Longrightarrow> built R m'"

text \<open>A name is plain, or it is a custom wall's with a wall id below \<open>c\<close>.\<close>

definition id_below :: "int \<Rightarrow> obstacle \<Rightarrow> bool" where
  "id_below c ob \<longleftrightarrow>
     plain ob \<or> (\<exists>k rest. name ob = ''custom_wall_'' @ str_int k @ ''_'' @ rest \<and> k < c)"

definition wall_ids_ok :: "maze \<Rightarrow> bool" where
  "wall_ids_ok m \<longleftrightarrow> (\<forall>ob \<in> set (obstacles m). id_below (wall_id_counter m) ob)"

lemma id_below_mono: "id_below c ob \<Longrightarrow> c \<le> c' \<Longrightarrow> id_below c' ob"
  unfolding id_below_def by force

lemma custom_id_below: "custom_id lo hi ob \<Longrightarrow> id_below hi ob"
  unfolding custom_id_def id_below_def by blast

lemma wall_ids_ok_grown:
  assumes "wall_ids_ok m" and "grown m m'"
  shows "wall_ids_ok m'"
proof -
  obtain news k where g: "m' = extended m news k" "0 \<le> k"
      "\<forall>ob \<in> set news. custom_id (wall_id_counter m) (wall_id_counter m + k) ob"
    using assms(2) unfolding grown_def by blast
  show ?thesis
    unfolding wall_ids_ok_def
  proof
    fix ob assume "ob \<in> set (obstacles m')"
    then consider "ob \<in> set (obstacles m)" | "ob \<in> set news"
      unfolding g(1) by auto
    then show "id_below (wall_id_counter m') ob"
    proof cases
      case 1
      then have "id_below (wall_id_counter m) ob"
        using assms(1) by (simp add: wall_ids_ok_def)
      then show ?thesis
        by (rule id_below_mono) (simp add: g(1,2))
    next
      case 2
      then have "custom_id (wall_id_counter m) (wall_id_counter m + k) ob"
        using g(3) by blast
      then show ?thesis
        unfolding g(1) by (simp add: custom_id_below)
    qed
  qed
qed

lemma add_custom_wall_grown:
  assumes "add_custom_wall R start_coords direction len m w = Inr (m', w')"
  shows "grown m m'"
  using add_custom_wall_effect [OF assms] unfolding grown_def by blast

lemma plain_prefix:
  assumes "take n (name ob) = p" and "p \<noteq> []" and "hd p \<noteq> CHR ''c''"
  shows "plain ob"
proof -
  have "name ob \<noteq> []" using assms(1,2) by auto
  moreover have "hd (name ob) = hd p"
    using assms(1,2) by (metis hd_take take_eq_Nil gr0I)
  ultimately show ?thesis using assms(3) by (simp add: plain_def)
qed

lemma wall_ids_ok_marker:
  assumes "wall_ids_ok m" and "plain ob" and "obstacles m' = obstacles m @ [ob]"
    and "wall_id_counter m' = wall_id_counter m"
  shows "wall_ids_ok m'"
  using assms unfolding wall_ids_ok_def id_below_def by auto

lemma id_below_renamed:
  assumes "id_below c ob" and "renamed ob ob'"
  shows "id_below c ob'"
proof -
  obtain uid where u: "name ob' = name ob @ ''_'' @ str_int uid"
    using assms(2) unfolding renamed_def by auto
  from assms(1) consider (p) "plain ob"
    | (c) k rest where "name ob = ''custom_wall_'' @ str_int k @ ''_'' @ rest" "k < c"
    unfolding id_below_def by blast
  then show ?thesis
  proof cases
    case p
    then have "plain ob'" unfolding plain_def u by simp
    then show ?thesis by (simp add: id_below_def)
  next
    case c
    then have "name ob' = ''custom_wall_'' @ str_int k @ ''_'' @ (rest @ ''_'' @ str_int uid)"
      unfolding u by simp
    then show ?thesis using c(2) unfolding id_below_def by blast
  qed
qed

lemma wall_ids_ok_loaded:
  assumes "wall_ids_ok m" and "list_all2 renamed (obstacles m) (obstacles m')"
    and "wall_id_counter m' = wall_id_counter m"
  shows "wall_ids_ok m'"
  unfolding wall_ids_ok_def
proof
  fix ob' assume "ob' \<in> set (obstacles m')"
  then obtain i where i: "i < length (obstacles m')" "obstacles m' ! i = ob'"
    by (auto simp: in_set_conv_nth)
  have len: "length (obstacles m) = length (obstacles m')"
    using assms(2) by (rule list_all2_lengthD)
  have r: "renamed (obstacles m ! i) ob'"
    using list_all2_nthD2 [OF assms(2) i(1)] i(2) by simp
  have "id_below (wall_id_counter m) (obstacles m ! i)"
    using assms(1) i(1) len by (simp add: wall_ids_ok_def)
  then show "id_below (wall_id_counter m') ob'"
    using r assms(3) id_below_renamed by simp
qed

lemma built_wall_ids_ok: "built R m \<Longrightarrow> wall_ids_ok m"
proof (induction rule: built.induct)
  case (built_Maze cfg g sc wh wl floor_size center w m w')
  then show ?case
    using Maze_facts [OF built_Maze] by (simp add: wall_ids_ok_def id_below_def)
next
  case (built_custom m start_coords direction len w m' w')
  then show ?case
    using wall_ids_ok_grown add_custom_wall_grown by blast
next
  case (built_random m num_walls w m' ex w')
  obtain m2 ex2 w2 where "generate_random_walls R m num_walls w = Inr (m2, ex2, w2)" "grown m m2"
    using generate_random_walls_result [of R m num_walls w] by blast
  then have "grown m m'" using built_random.hyps(2) by simp
  then show ?case using built_random.IH wall_ids_ok_grown by blast
next
  case (built_goal m coord w m' w')
  obtain ob where ob: "m' = m\<lparr>config := create_object (config m) ob, goal_object := Some ob,
                             obstacles := obstacles m @ [ob]\<rparr>"
      "take 12 (name ob) = ''goal_object_''"
    using add_goal_object_effect [OF built_goal.hyps(2)] by blast
  have pl: "plain ob" using ob(2) by (rule plain_prefix) simp_all
  show ?case
    by (rule wall_ids_ok_marker [OF built_goal.IH pl]) (simp_all add: ob(1))
next
  case (built_final m coord w m' w')
  obtain ob where ob: "m' = m\<lparr>config := create_object (config m) ob, final_object := Some ob,
                             obstacles := obstacles m @ [ob]\<rparr>"
      "take 13 (name ob) = ''final_object_''"
    using add_final_object_effect [OF built_final.hyps(2)] by blast
  have pl: "plain ob" using ob(2) by (rule plain_prefix) simp_all
  show ?case
    by (rule wall_ids_ok_marker [OF built_final.IH pl]) (simp_all add: ob(1))
next
  case (built_load m w p rb self m' w')
  show ?case
    using load_saved [OF built_load.hyps(2,3)] built_load.IH wall_ids_ok_loaded by blast
qed

text \<open>
  C5, as the specification states it, fails: the numeric suffix of a custom wall's name is the
  random integer that \<open>Obstacle\<close> appends (1000 to 9999), and the counter need not exceed
  it. In the example the maze is loaded with the counter 15 and the wall
  \<open>custom_wall_13_1000_1000\<close>.
\<close>

theorem suffix_not_below_counter:
  "Maze gen_const [] 1 (1 / 3) 1 1 20 [0, 0] (world0 ()) = Inr built1
   \<and> add_custom_wall gen_const [0, 0] ''horizontal'' 1 (fst built1) (snd built1) = Inr built2
   \<and> load_maze gen_const ''maze_1.json'' (fst built2)
        (save_maze ''maze_1.json'' None (fst built2) (snd built2)) = Inr loaded2
   \<and> obstacles (fst loaded2) \<noteq> []
   \<and> name (last (obstacles (fst loaded2))) = ''custom_wall_13_1000_1000''
   \<and> numeric_suffix (name (last (obstacles (fst loaded2)))) = 1000
   \<and> wall_id_counter (fst loaded2) = 15
   \<and> \<not> int (numeric_suffix (name (last (obstacles (fst loaded2))))) < wall_id_counter (fst loaded2)"
proof -
  have n: "name (last (obstacles (fst loaded2))) = ''custom_wall_13_1000_1000''"
    by (rule loaded2_facts(2))
  have s: "numeric_suffix ''custom_wall_13_1000_1000'' = 1000"
    by (simp add: numeric_suffix_def nat_of_str_def digit_val_def)
  have ne: "obstacles (fst loaded2) \<noteq> []"
  proof -
    have "list_all2 renamed (obstacles (fst built2)) (obstacles (fst loaded2))"
      using load_saved [OF files_save_maze, of gen_const "''maze_1.json''" "fst built2" None
          "fst built2" "snd built2" "fst loaded2" "snd loaded2"] loaded2_eq by simp
    then have "length (obstacles (fst loaded2)) = length (obstacles (fst built2))"
      by (simp add: list_all2_lengthD)
    then show ?thesis by (auto simp: built2_eq(2))
  qed
  show ?thesis
    using built1_eq built2_eq(1) loaded2_eq ne loaded2_facts(1) by (simp add: n s)
qed

text \<open>
  C5, amended. The counter after a load is the counter of the maze that was saved. For a
  maze that the program built, the counter after the load is above the wall id \<open>k\<close> of
  every obstacle whose name is \<open>custom_wall_\<close>, \<open>k\<close>, an underscore and a rest: the id that
  \<open>add_custom_wall\<close> wrote from the counter, not the random suffix behind it.
\<close>

theorem counter_after_load:
  assumes "load_maze R p self (save_maze p rb m w) = Inr (m', w')"
  shows "wall_id_counter m' = wall_id_counter m
       \<and> (built R m \<longrightarrow>
            (\<forall>ob \<in> set (obstacles m'). \<forall>k rest.
               name ob = ''custom_wall_'' @ str_int k @ ''_'' @ rest \<longrightarrow> k < wall_id_counter m'))"
proof (intro conjI impI)
  show "wall_id_counter m' = wall_id_counter m"
    using load_saved [OF files_save_maze assms] by simp
  assume "built R m"
  then have "built R m'"
    using files_save_maze assms by (rule built_load)
  then have ok: "wall_ids_ok m'" by (rule built_wall_ids_ok)
  show "\<forall>ob \<in> set (obstacles m'). \<forall>k rest.
            name ob = ''custom_wall_'' @ str_int k @ ''_'' @ rest \<longrightarrow> k < wall_id_counter m'"
  proof (intro ballI allI impI)
    fix ob k rest
    assume ob: "ob \<in> set (obstacles m')"
      and nm: "name ob = ''custom_wall_'' @ str_int k @ ''_'' @ rest"
    have "id_below (wall_id_counter m') ob"
      using ok ob by (simp add: wall_ids_ok_def)
    then consider (p) "plain ob"
      | (c) j r where "name ob = ''custom_wall_'' @ str_int j @ ''_'' @ r" "j < wall_id_counter m'"
      unfolding id_below_def by blast
    then show "k < wall_id_counter m'"
    proof cases
      case p
      then show ?thesis unfolding plain_def nm by simp
    next
      case c
      have "j = k" using c(1) nm by (intro wall_id_unique [of j r k rest]) simp
      then show ?thesis using c(2) by simp
    qed
  qed
qed

theorem counter_after_load_witness:
  "built gen_const (fst built2)
   \<and> load_maze gen_const ''maze_1.json'' (fst built2)
        (save_maze ''maze_1.json'' None (fst built2) (snd built2)) = Inr loaded2
   \<and> wall_id_counter (fst loaded2) = wall_id_counter (fst built2)
   \<and> name (last (obstacles (fst loaded2))) = ''custom_wall_13_1000_1000''
   \<and> (13 :: int) < wall_id_counter (fst loaded2)"
proof -
  have b1: "built gen_const (fst built1)"
    using built1_eq built_Maze [of gen_const "[]" 1 "1 / 3" 1 1 20 "[0, 0]" "world0 ()"
        "fst built1" "snd built1"] by simp
  have b2: "built gen_const (fst built2)"
    using b1 built2_eq(1) built_custom [of gen_const "fst built1" "[0, 0]" "''horizontal''" 1
        "snd built1" "fst built2" "snd built2"] by simp
  have l: "load_maze gen_const ''maze_1.json'' (fst built2)
        (save_maze ''maze_1.json'' None (fst built2) (snd built2)) = Inr (fst loaded2, snd loaded2)"
    using loaded2_eq by simp
  have c: "wall_id_counter (fst loaded2) = wall_id_counter (fst built2)"
    and a: "\<forall>ob \<in> set (obstacles (fst loaded2)). \<forall>k rest.
            name ob = ''custom_wall_'' @ str_int k @ ''_'' @ rest \<longrightarrow> k < wall_id_counter (fst loaded2)"
    using counter_after_load [OF l] b2 by blast+
  have ne: "obstacles (fst loaded2) \<noteq> []"
  proof -
    have "list_all2 renamed (obstacles (fst built2)) (obstacles (fst loaded2))"
      using load_saved [OF files_save_maze l] by simp
    then have "length (obstacles (fst loaded2)) = length (obstacles (fst built2))"
      by (simp add: list_all2_lengthD)
    then show ?thesis by (auto simp: built2_eq(2))
  qed
  have nm: "name (last (obstacles (fst loaded2)))
              = ''custom_wall_'' @ str_int 13 @ ''_'' @ ''1000_1000''"
    by (simp add: loaded2_facts(2) str_int_def digit_char_def)
  have "last (obstacles (fst loaded2)) \<in> set (obstacles (fst loaded2))"
    using ne by simp
  then have "(13 :: int) < wall_id_counter (fst loaded2)"
    using a nm by blast
  then show ?thesis
    using b2 loaded2_eq c loaded2_facts(2) by simp
qed


end
